theory Spec2Isabelle
  imports Main "HOL-Library.Multiset"
begin

section \<open>The Jeopardy board of \<^verbatim>\<open>src/jeopardy.js\<close>\<close>

text \<open>
  The script keeps one global, \<^verbatim>\<open>categories\<close>, and works on a page with a start button,
  a spinner and a table. It calls three libraries that are not part of the repository:
  axios (one GET per call, which resolves or rejects), lodash (\<^verbatim>\<open>_.sampleSize\<close>) and
  jQuery (reads and writes of page elements). Each is modelled by what the call does to
  the values the script sees.
\<close>

subsection \<open>Data\<close>

text \<open>\<^verbatim>\<open>showing\<close> of a clue: \<^verbatim>\<open>null\<close>, \<^verbatim>\<open>"question"\<close> or \<^verbatim>\<open>"answer"\<close>.\<close>

datatype showing = Null | Question | Answer

text \<open>
  A clue as the remote service sends it has \<^verbatim>\<open>question\<close> and \<^verbatim>\<open>answer\<close> and further
  fields the script never reads (the extension part of the record). A clue of the board
  is \<^verbatim>\<open>{question, answer, showing}\<close>.
\<close>

record clue_fields =
  question :: string
  answer :: string

record clue = clue_fields +
  showing :: showing

record 'c category =
  title :: string
  clues :: "'c list"

text \<open>An entry of the answer to \<^verbatim>\<open>/api/categories\<close>: the script reads its \<^verbatim>\<open>id\<close> only.\<close>

record category_entry =
  cat_id :: nat

datatype error = NetworkError | TypeError

text \<open>
  The remote service, as the two GETs see it: each answers with the response data or
  rejects.
\<close>

record 'r remote =
  categories_api :: "error + category_entry list"
  category_api :: "nat \<Rightarrow> error + ('r clue_fields_scheme) category"

text \<open>
  A page element as \<^verbatim>\<open>handleClick\<close> and \<^verbatim>\<open>fillTable\<close> use it: its \<^verbatim>\<open>id\<close> attribute (if
  any), whether it carries the class \<^verbatim>\<open>disabled\<close>, and its content, which is the
  question-mark icon \<^verbatim>\<open><i class="fas fa-question-circle fa-3x">\<close> or the markup put
  there by \<^verbatim>\<open>.html(msg)\<close>.
\<close>

datatype content = QuestionIcon | Html string

record element =
  attr_id :: "string option"
  disabled :: bool
  html :: content

text \<open>The library calls with an effect on the page or the network, in the order made.\<close>

datatype call =
    GetCategories
  | GetCategory nat
  | EmptyHead
  | EmptyBody
  | AppendHead
  | AppendBody
  | ShowSpinner
  | HideSpinner
  | StartText string

text \<open>
  The state the script reads and writes: the global \<^verbatim>\<open>categories\<close>; the page
  (\<^verbatim>\<open>#start\<close>, \<^verbatim>\<open>#spin-container\<close>, the rows of \<^verbatim>\<open>#jeopardy thead\<close> and
  \<^verbatim>\<open>#jeopardy tbody\<close>); the future values of \<^verbatim>\<open>Math.random\<close> (\<open>rng w i\<close> decides the
  \<open>i\<close>-th draw still to come); the calls made so far; and, for every property name that
  an array inherits from its prototype chain, the \<^verbatim>\<open>showing\<close> that can be read on the
  inherited object (\<open>None\<close> for a name that is not inherited). Which names are inherited
  depends on the engine; different names are taken to give different objects, and none of
  them has \<^verbatim>\<open>clues\<close>, \<^verbatim>\<open>question\<close> or \<^verbatim>\<open>answer\<close>.
\<close>

record world =
  categories :: "clue category list"
  start_text :: string
  start_disabled :: bool
  spinner_shown :: bool
  thead :: "string list list"
  tbody :: "element list list"
  rng :: "nat \<Rightarrow> nat"
  calls :: "call list"
  array_proto :: "string \<Rightarrow> showing option"

subsection \<open>Strings: template literals, \<^verbatim>\<open>split\<close>, array indices\<close>

text \<open>The decimal numeral of a number, as a template literal \<^verbatim>\<open>`${n}`\<close> prints it.\<close>

definition digit_char :: "nat \<Rightarrow> char" where
  "digit_char d = char_of (48 + d)"

fun string_of_nat :: "nat \<Rightarrow> string" where
  "string_of_nat n =
     (if n < 10 then [digit_char n]
      else string_of_nat (n div 10) @ [digit_char (n mod 10)])"

text \<open>\<^verbatim>\<open>s.split(sep)\<close> for a one-character separator: never an empty array.\<close>

fun split_on :: "char \<Rightarrow> string \<Rightarrow> string list" where
  "split_on sep [] = [[]]"
| "split_on sep (c # cs) =
     (if c = sep then [] # split_on sep cs
      else (case split_on sep cs of
              [] \<Rightarrow> [[c]]
            | p # ps \<Rightarrow> (c # p) # ps))"

text \<open>
  A property key is an array index when it is the canonical numeral of a number:
  digits only, and no leading zero unless it is \<^verbatim>\<open>"0"\<close> itself.
\<close>

definition digit_val :: "char \<Rightarrow> nat option" where
  "digit_val c =
     (let k = (of_char c :: nat) in
      if 48 \<le> k \<and> k \<le> 57 then Some (k - 48) else None)"

fun digits_val :: "nat \<Rightarrow> string \<Rightarrow> nat option" where
  "digits_val acc [] = Some acc"
| "digits_val acc (c # cs) =
     (case digit_val c of
        None \<Rightarrow> None
      | Some d \<Rightarrow> digits_val (10 * acc + d) cs)"

definition array_index :: "string \<Rightarrow> nat option" where
  "array_index key =
     (case key of
        [] \<Rightarrow> None
      | c # cs \<Rightarrow> if c = CHR ''0'' \<and> cs \<noteq> [] then None else digits_val 0 key)"

text \<open>
  \<^verbatim>\<open>xs[key]\<close> on an array, with a string key: the element at an index in range; the
  array's own \<^verbatim>\<open>length\<close>; an object inherited under that name; otherwise \<^verbatim>\<open>undefined\<close>.
\<close>

datatype 'a property = Undefined | Element nat 'a | ArrayLength | Inherited string

definition get_property :: "(string \<Rightarrow> showing option) \<Rightarrow> 'a list \<Rightarrow> string \<Rightarrow> 'a property" where
  "get_property proto xs key =
     (case array_index key of
        Some n \<Rightarrow> if n < length xs then Element n (xs ! n) else Undefined
      | None \<Rightarrow>
          if key = ''length'' then ArrayLength
          else (case proto key of None \<Rightarrow> Undefined | Some s \<Rightarrow> Inherited key))"

subsection \<open>\<^verbatim>\<open>_.sampleSize\<close>\<close>

text \<open>
  lodash, on an array: \<^verbatim>\<open>shuffleSelf(copyArray(array), baseClamp(n, 0, array.length))\<close>,
  where \<^verbatim>\<open>shuffleSelf\<close> swaps, for \<^verbatim>\<open>index\<close> from 0 below \<^verbatim>\<open>size\<close>, the element at
  \<^verbatim>\<open>index\<close> with the one at \<^verbatim>\<open>baseRandom(index, lastIndex)\<close> and then cuts the array to
  \<^verbatim>\<open>size\<close> (\<open>sz\<close> below). \<^verbatim>\<open>baseRandom(lower, upper)\<close> is
  \<^verbatim>\<open>lower + floor(Math.random() * (upper - lower + 1))\<close>: any number from \<^verbatim>\<open>lower\<close> to
  \<^verbatim>\<open>upper\<close>; the draw \<open>r\<close> picks which.
\<close>

definition baseRandom :: "nat \<Rightarrow> nat \<Rightarrow> nat \<Rightarrow> nat" where
  "baseRandom r lower upper = lower + r mod (upper - lower + 1)"

function shuffleSelf_loop :: "(nat \<Rightarrow> nat) \<Rightarrow> nat \<Rightarrow> nat \<Rightarrow> 'a list \<Rightarrow> 'a list" where
  "shuffleSelf_loop rnd sz index array =
     (if index < sz then
        (let rand = baseRandom (rnd index) index (length array - 1);
             val = array ! rand
         in shuffleSelf_loop rnd sz (Suc index) (array[rand := array ! index, index := val]))
      else array)"
  by pat_completeness auto
termination
  by (relation "measure (\<lambda>(rnd, sz, index, array). sz - index)") auto

definition shuffleSelf :: "(nat \<Rightarrow> nat) \<Rightarrow> 'a list \<Rightarrow> nat \<Rightarrow> 'a list" where
  "shuffleSelf rnd array sz = take sz (shuffleSelf_loop rnd sz 0 array)"

definition sampleSize :: "(nat \<Rightarrow> nat) \<Rightarrow> 'a list \<Rightarrow> nat \<Rightarrow> 'a list" where
  "sampleSize rnd collection n = shuffleSelf rnd collection (min n (length collection))"

text \<open>The draws left after \<open>k\<close> of them are used.\<close>

definition drawn :: "nat \<Rightarrow> world \<Rightarrow> world" where
  "drawn k w = w\<lparr>rng := (\<lambda>i. rng w (i + k))\<rparr>"

subsection \<open>The fetches\<close>

text \<open>
  \<^verbatim>\<open>getCategoryIds\<close>: one GET; when it rejects, so does the function (the \<^verbatim>\<open>await\<close>
  throws). Otherwise the ids of the entries are sampled, 6 of them asked for.
\<close>

definition getCategoryIds :: "'r remote \<Rightarrow> world \<Rightarrow> (error + nat list) \<times> world" where
  "getCategoryIds rem w =
     (let w1 = w\<lparr>calls := calls w @ [GetCategories]\<rparr> in
      case categories_api rem of
        Inl e \<Rightarrow> (Inl e, w1)
      | Inr data \<Rightarrow>
          (let catIds = map cat_id data
           in (Inr (sampleSize (rng w1) catIds 6), drawn (min 6 (length catIds)) w1)))"

text \<open>The function mapped over the sampled clues: \<^verbatim>\<open>(c) => ({question: c.question, answer: c.answer, showing: null})\<close>.\<close>

definition board_clue :: "'r clue_fields_scheme \<Rightarrow> clue" where
  "board_clue c = \<lparr>question = question c, answer = answer c, showing = Null\<rparr>"

text \<open>
  \<^verbatim>\<open>getCategory\<close>: one GET for the category; 5 of its clues are sampled and each is
  rebuilt by \<open>board_clue\<close>.
\<close>

definition getCategory :: "'r remote \<Rightarrow> nat \<Rightarrow> world \<Rightarrow> (error + clue category) \<times> world" where
  "getCategory rem catId w =
     (let w1 = w\<lparr>calls := calls w @ [GetCategory catId]\<rparr> in
      case category_api rem catId of
        Inl e \<Rightarrow> (Inl e, w1)
      | Inr cat \<Rightarrow>
          (let randomClues =
                 map board_clue
                   (sampleSize (rng w1) (clues cat) 5)
           in (Inr \<lparr>title = title cat, clues = randomClues\<rparr>,
               drawn (min 5 (length (clues cat))) w1)))"

text \<open>What \<^verbatim>\<open>getCategory\<close> can resolve to for \<open>catId\<close>, over all random draws.\<close>

abbreviation fetched :: "'r remote \<Rightarrow> nat \<Rightarrow> clue category \<Rightarrow> bool" where
  "fetched rem catId cat \<equiv>
     \<exists>rc rnd. category_api rem catId = Inr rc \<and>
       cat = \<lparr>title = title rc, clues = map board_clue (sampleSize rnd (clues rc) 5)\<rparr>"

subsection \<open>The loading view and the table\<close>

definition showLoadingView :: "world \<Rightarrow> world" where
  "showLoadingView w =
     w\<lparr>thead := [], tbody := [], spinner_shown := True,
       start_disabled := True, start_text := ''Loading...'',
       calls := calls w @ [EmptyHead, EmptyBody, ShowSpinner, StartText ''Loading...'']\<rparr>"

definition hideLoadingView :: "world \<Rightarrow> world" where
  "hideLoadingView w =
     w\<lparr>start_disabled := False, start_text := ''Restart!'', spinner_shown := False,
       calls := calls w @ [StartText ''Restart!'', HideSpinner]\<rparr>"

text \<open>The cell \<^verbatim>\<open>$("<td>").attr("id", `${catIdx}-${clueIdx}`).append($("<i>")...)\<close>.\<close>

definition new_td :: "nat \<Rightarrow> nat \<Rightarrow> element" where
  "new_td catIdx clueIdx =
     \<lparr>attr_id = Some (string_of_nat catIdx @ ''-'' @ string_of_nat clueIdx),
      disabled = False, html = QuestionIcon\<rparr>"

text \<open>The inner loop of \<^verbatim>\<open>fillTable\<close>, over \<^verbatim>\<open>catIdx\<close>: it fills the row \<^verbatim>\<open>$tr\<close>.\<close>

function fillTable_cells :: "nat \<Rightarrow> nat \<Rightarrow> element list \<Rightarrow> element list" where
  "fillTable_cells clueIdx catIdx tr =
     (if catIdx < 6 then fillTable_cells clueIdx (Suc catIdx) (tr @ [new_td catIdx clueIdx])
      else tr)"
  by pat_completeness auto
termination
  by (relation "measure (\<lambda>(clueIdx, catIdx, tr). 6 - catIdx)") auto

text \<open>The outer loop, over \<^verbatim>\<open>clueIdx\<close>: each row is appended to the body.\<close>

function fillTable_rows :: "nat \<Rightarrow> world \<Rightarrow> world" where
  "fillTable_rows clueIdx w =
     (if clueIdx < 5 then
        fillTable_rows (Suc clueIdx)
          (w\<lparr>tbody := tbody w @ [fillTable_cells clueIdx 0 []],
             calls := calls w @ [AppendBody]\<rparr>)
      else w)"
  by pat_completeness auto
termination
  by (relation "measure (\<lambda>(clueIdx, w). 5 - clueIdx)") auto

definition fillTable :: "world \<Rightarrow> world" where
  "fillTable w =
     (let w1 = hideLoadingView w;
          tr = map title (categories w1);
          w2 = w1\<lparr>thead := thead w1 @ [tr], calls := calls w1 @ [AppendHead]\<rparr>;
          w3 = w2\<lparr>tbody := [], calls := calls w2 @ [EmptyBody]\<rparr>
      in fillTable_rows 0 w3)"

subsection \<open>\<^verbatim>\<open>handleClick\<close>\<close>

text \<open>\<^verbatim>\<open>categories[catIdx].clues[clueIdx].showing = s\<close>.\<close>

definition set_showing :: "nat \<Rightarrow> nat \<Rightarrow> showing \<Rightarrow> clue category list \<Rightarrow> clue category list" where
  "set_showing catIdx clueIdx s cats =
     cats[catIdx := (cats ! catIdx)
       \<lparr>clues := (clues (cats ! catIdx))
          [clueIdx := (clues (cats ! catIdx) ! clueIdx)\<lparr>showing := s\<rparr>]\<rparr>]"

text \<open>
  The two keys of \<^verbatim>\<open>let [catId, clueId] = id.split("-")\<close>; a missing part is
  \<^verbatim>\<open>undefined\<close>, which as a property key is the string \<^verbatim>\<open>"undefined"\<close>.
\<close>

definition id_keys :: "string \<Rightarrow> string \<times> string" where
  "id_keys ident =
     (case split_on CHR ''-'' ident of
        [] \<Rightarrow> (''undefined'', ''undefined'')
      | [catId] \<Rightarrow> (catId, ''undefined'')
      | catId # clueId # _ \<Rightarrow> (catId, clueId))"

text \<open>
  The element a click lands on, \<^verbatim>\<open>evt.target\<close>. The handler is delegated
  (\<^verbatim>\<open>$("#jeopardy").on("click", "td", handleClick)\<close>), so it runs for a click on a cell of
  the body, \<open>Td row column\<close>, and for a click on an element inside a cell,
  \<open>Inside row column\<close>: the icon that fills a fresh cell, or markup of a question or
  answer. Such an inner element is taken to carry no id. A position where the body has no
  cell stands for no element, and \<^verbatim>\<open>.attr("id")\<close> reads \<^verbatim>\<open>undefined\<close> from it.
\<close>

datatype target = Td nat nat | Inside nat nat

text \<open>\<^verbatim>\<open>$tgt.attr("id")\<close>.\<close>

definition target_id :: "world \<Rightarrow> target \<Rightarrow> string option" where
  "target_id w tgt =
     (case tgt of
        Td r c \<Rightarrow>
          if r < length (tbody w) \<and> c < length (tbody w ! r) then attr_id (tbody w ! r ! c)
          else None
      | Inside r c \<Rightarrow> None)"

text \<open>
  A write to the clicked element (\<^verbatim>\<open>$tgt.addClass\<close>, \<^verbatim>\<open>$tgt.html\<close>): the cell changes in
  the page. The handler writes only after it has read an id, so never to an inner element.
\<close>

definition update_target :: "target \<Rightarrow> (element \<Rightarrow> element) \<Rightarrow> world \<Rightarrow> world" where
  "update_target tgt f w =
     (case tgt of
        Td r c \<Rightarrow> w\<lparr>tbody := (tbody w)[r := (tbody w ! r)[c := f (tbody w ! r ! c)]]\<rparr>
      | Inside r c \<Rightarrow> w)"

text \<open>
  The first lines of the handler, up to \<^verbatim>\<open>let clue = categories[catId].clues[clueId]\<close>.
  A \<^verbatim>\<open>TypeError\<close> is thrown by \<^verbatim>\<open>id.split\<close> when the clicked element has no id, and by
  \<^verbatim>\<open>.clues\<close> or \<^verbatim>\<open>[clueId]\<close> when \<^verbatim>\<open>categories[catId]\<close> is not a category
  (\<^verbatim>\<open>undefined\<close>, the length, or an inherited object, which has no \<^verbatim>\<open>clues\<close>). Otherwise
  \<^verbatim>\<open>clue\<close> is what \<^verbatim>\<open>clues[clueId]\<close> gives in the category at index \<open>catIdx\<close>.
\<close>

definition lookup_clue :: "world \<Rightarrow> target \<Rightarrow> error + nat \<times> clue property" where
  "lookup_clue w tgt =
     (case target_id w tgt of
        None \<Rightarrow> Inl TypeError
      | Some ident \<Rightarrow>
          (let (catId, clueId) = id_keys ident in
           case get_property (array_proto w) (categories w) catId of
             Element catIdx cat \<Rightarrow> Inr (catIdx, get_property (array_proto w) (clues cat) clueId)
           | _ \<Rightarrow> Inl TypeError))"

text \<open>
  The handler gives back what it threw, if anything, and the state as it left it, the
  page included. \<^verbatim>\<open>clue.showing\<close> throws a \<^verbatim>\<open>TypeError\<close> when the clue is
  \<^verbatim>\<open>undefined\<close>. When the clue is the array's length (a number), reading \<^verbatim>\<open>showing\<close> and
  \<^verbatim>\<open>question\<close> gives \<^verbatim>\<open>undefined\<close>, the assignment to \<^verbatim>\<open>showing\<close> is dropped (the
  script is not in strict mode) and \<^verbatim>\<open>.html(undefined)\<close> writes nothing. When it is an
  inherited object, the assignment stays on that object, and \<^verbatim>\<open>question\<close> and
  \<^verbatim>\<open>answer\<close> are \<^verbatim>\<open>undefined\<close> again.
\<close>

definition handleClick :: "world \<Rightarrow> target \<Rightarrow> (error + unit) \<times> world" where
  "handleClick w tgt =
     (case lookup_clue w tgt of
        Inl e \<Rightarrow> (Inl e, w)
      | Inr (catIdx, Undefined) \<Rightarrow> (Inl TypeError, w)
      | Inr (catIdx, Element clueIdx clue) \<Rightarrow>
          (case showing clue of
             Null \<Rightarrow>
               (Inr (),
                update_target tgt (\<lambda>td. td\<lparr>html := Html (question clue)\<rparr>)
                  (w\<lparr>categories := set_showing catIdx clueIdx Question (categories w)\<rparr>))
           | Question \<Rightarrow>
               (Inr (),
                update_target tgt (\<lambda>td. td\<lparr>disabled := True, html := Html (answer clue)\<rparr>)
                  (w\<lparr>categories := set_showing catIdx clueIdx Answer (categories w)\<rparr>))
           | Answer \<Rightarrow> (Inr (), w))
      | Inr (catIdx, ArrayLength) \<Rightarrow> (Inr (), w)
      | Inr (catIdx, Inherited name) \<Rightarrow>
          (case array_proto w name of
             Some Question \<Rightarrow>
               (Inr (),
                update_target tgt (\<lambda>td. td\<lparr>disabled := True\<rparr>)
                  (w\<lparr>array_proto := (array_proto w)(name \<mapsto> Answer)\<rparr>))
           | Some Answer \<Rightarrow> (Inr (), w)
           | _ \<Rightarrow> (Inr (), w\<lparr>array_proto := (array_proto w)(name \<mapsto> Question)\<rparr>)))"

subsection \<open>\<^verbatim>\<open>setupAndStart\<close>\<close>

text \<open>
  An \<^verbatim>\<open>async\<close> function gives back how its promise settles (\<open>Inr\<close> resolved, \<open>Inl\<close>
  rejected) and the state it leaves; a rejection keeps every write made before it. A run
  is followed from its trigger to its end; a trigger that arrives at one of its
  \<^verbatim>\<open>await\<close>s starts a run of its own on the state of that moment.

  The loop \<^verbatim>\<open>for (let catId of catIds) categories.push(await getCategory(catId))\<close>:
  a rejected fetch ends it, with the categories pushed so far left in place.
\<close>

fun setupAndStart_loop :: "'r remote \<Rightarrow> nat list \<Rightarrow> world \<Rightarrow> (error + unit) \<times> world" where
  "setupAndStart_loop rem [] w = (Inr (), w)"
| "setupAndStart_loop rem (catId # catIds) w =
     (case getCategory rem catId w of
        (Inl e, w1) \<Rightarrow> (Inl e, w1)
      | (Inr cat, w1) \<Rightarrow>
          setupAndStart_loop rem catIds (w1\<lparr>categories := categories w1 @ [cat]\<rparr>))"

definition setupAndStart :: "'r remote \<Rightarrow> world \<Rightarrow> (error + unit) \<times> world" where
  "setupAndStart rem w =
     (let isLoading = (start_text w = ''Loading...'') in
      if \<not> isLoading then
        (let w1 = showLoadingView w in
         case getCategoryIds rem w1 of
           (Inl e, w2) \<Rightarrow> (Inl e, w2)
         | (Inr catIds, w2) \<Rightarrow>
             (let w3 = w2\<lparr>categories := []\<rparr> in
              case setupAndStart_loop rem catIds w3 of
                (Inl e, w4) \<Rightarrow> (Inl e, w4)
              | (Inr u, w4) \<Rightarrow> (Inr (), fillTable w4)))
      else (Inr (), w))"

subsection \<open>A sample game\<close>

text \<open>
  Remote clues with one further field (their value); a service with eight candidate
  categories, one with two candidates of three clues each, one that is down and one that
  fails on category 13; and the page before the first game.
\<close>

definition math_clues :: "nat clue_fields_scheme list" where
  "math_clues =
     [\<lparr>question = ''2+2'', answer = ''4'', \<dots> = 100\<rparr>,
      \<lparr>question = ''1+1'', answer = ''2'', \<dots> = 200\<rparr>,
      \<lparr>question = ''3*3'', answer = ''9'', \<dots> = 300\<rparr>,
      \<lparr>question = ''10/2'', answer = ''5'', \<dots> = 400\<rparr>,
      \<lparr>question = ''7-4'', answer = ''3'', \<dots> = 500\<rparr>,
      \<lparr>question = ''6+1'', answer = ''7'', \<dots> = 600\<rparr>,
      \<lparr>question = ''8*2'', answer = ''16'', \<dots> = 800\<rparr>]"

definition full_remote :: "nat remote" where
  "full_remote =
     \<lparr>categories_api = Inr (map (\<lambda>i. \<lparr>cat_id = i\<rparr>) [11, 12, 13, 14, 15, 16, 17, 18]),
      category_api = (\<lambda>i. Inr \<lparr>title = ''Math'', clues = math_clues\<rparr>)\<rparr>"

definition short_remote :: "nat remote" where
  "short_remote =
     \<lparr>categories_api = Inr [\<lparr>cat_id = 11\<rparr>, \<lparr>cat_id = 12\<rparr>],
      category_api = (\<lambda>i. Inr \<lparr>title = ''Math'', clues = take 3 math_clues\<rparr>)\<rparr>"

definition down_remote :: "nat remote" where
  "down_remote =
     \<lparr>categories_api = Inl NetworkError,
      category_api = (\<lambda>i. Inl NetworkError)\<rparr>"

definition flaky_remote :: "nat remote" where
  "flaky_remote =
     \<lparr>categories_api = Inr (map (\<lambda>i. \<lparr>cat_id = i\<rparr>) [11, 12, 13, 14, 15, 16, 17, 18]),
      category_api =
        (\<lambda>i. if i = 13 then Inl NetworkError else Inr \<lparr>title = ''Math'', clues = math_clues\<rparr>)\<rparr>"

definition first_page :: world where
  "first_page =
     \<lparr>categories = [], start_text = ''Start!'', start_disabled = False, spinner_shown = False,
      thead = [], tbody = [], rng = (\<lambda>i. 3), calls = [],
      array_proto = [''constructor'' \<mapsto> Null]\<rparr>"

text \<open>A page in the middle of a game: one category with two clues, its table filled.\<close>

definition math_world :: world where
  "math_world =
     fillTable
       (first_page\<lparr>categories :=
          [\<lparr>title = ''Math'',
            clues = [\<lparr>question = ''2+2'', answer = ''4'', showing = Null\<rparr>,
                     \<lparr>question = ''1+1'', answer = ''2'', showing = Null\<rparr>]\<rparr>]\<rparr>)"

text \<open>
  The same page with the first row replaced by cells whose ids name no clue, as markup
  from the service could bring them in.
\<close>

definition td_with_id :: "string \<Rightarrow> element" where
  "td_with_id ident = \<lparr>attr_id = Some ident, disabled = False, html = QuestionIcon\<rparr>"

definition odd_world :: world where
  "odd_world =
     math_world\<lparr>tbody :=
       [[td_with_id ''0-length'', td_with_id ''0-0'', td_with_id ''0-constructor'',
         td_with_id ''00-0'', td_with_id ''length-0'', td_with_id ''0'']]\<rparr>"

text \<open>Three clicks in a row on the first cell of the page in mid-game.\<close>

definition click1 :: "(error + unit) \<times> world" where
  "click1 = handleClick math_world (Td 0 0)"

definition click2 :: "(error + unit) \<times> world" where
  "click2 = handleClick (snd click1) (Td 0 0)"

definition click3 :: "(error + unit) \<times> world" where
  "click3 = handleClick (snd click2) (Td 0 0)"

text \<open>
  The equations of the loops rewrite a loop to itself: they are used by hand, one step at
  a time.
\<close>

declare string_of_nat.simps [simp del]
declare shuffleSelf_loop.simps [simp del]
declare fillTable_cells.simps [simp del]
declare fillTable_rows.simps [simp del]


section \<open>Properties\<close>

subsection \<open>Numerals and ids\<close>

lemma string_of_nat_small: "n < 10 \<Longrightarrow> string_of_nat n = [digit_char n]"
  by (subst string_of_nat.simps) simp

lemma string_of_nat_big:
  "\<not> n < 10 \<Longrightarrow> string_of_nat n = string_of_nat (n div 10) @ [digit_char (n mod 10)]"
  by (subst string_of_nat.simps) simp

lemma of_char_digit_char: "d < 10 \<Longrightarrow> of_char (digit_char d) = 48 + d"
  by (simp add: digit_char_def)

lemma digit_val_digit_char: "d < 10 \<Longrightarrow> digit_val (digit_char d) = Some d"
  by (simp add: digit_val_def of_char_digit_char)

lemma digits_val_snoc:
  "digits_val acc (xs @ [c]) =
     (case digits_val acc xs of None \<Rightarrow> None
      | Some v \<Rightarrow> (case digit_val c of None \<Rightarrow> None | Some d \<Rightarrow> Some (10 * v + d)))"
  by (induction xs arbitrary: acc) (auto split: option.splits)

lemma digits_val_string_of_nat: "digits_val 0 (string_of_nat n) = Some n"
proof (induction n rule: string_of_nat.induct)
  case (1 n)
  show ?case
  proof (cases "n < 10")
    case True
    then show ?thesis by (simp add: string_of_nat_small digit_val_digit_char)
  next
    case False
    have "n mod 10 < 10" by simp
    with False 1 show ?thesis
      by (simp add: string_of_nat_big digits_val_snoc digit_val_digit_char)
  qed
qed

lemma string_of_nat_nonempty: "string_of_nat n \<noteq> []"
  by (cases "n < 10") (simp_all add: string_of_nat_small string_of_nat_big)

lemma digit_char_zero: "d < 10 \<Longrightarrow> digit_char d = CHR ''0'' \<Longrightarrow> d = 0"
proof -
  assume d: "d < 10" and "digit_char d = CHR ''0''"
  then have "(of_char (digit_char d) :: nat) = of_char (CHR ''0'')" by simp
  with d show ?thesis by (simp add: of_char_digit_char)
qed

lemma digit_char_not_dash: "d < 10 \<Longrightarrow> digit_char d \<noteq> CHR ''-''"
proof
  assume d: "d < 10" and "digit_char d = CHR ''-''"
  then have "(of_char (digit_char d) :: nat) = of_char (CHR ''-'')" by simp
  with d show False by (simp add: of_char_digit_char)
qed

lemma hd_string_of_nat: "hd (string_of_nat n) = CHR ''0'' \<Longrightarrow> n = 0"
proof (induction n rule: string_of_nat.induct)
  case (1 n)
  show ?case
  proof (cases "n < 10")
    case True
    with 1(2) show ?thesis by (simp add: string_of_nat_small digit_char_zero)
  next
    case False
    with 1(2) have "hd (string_of_nat (n div 10)) = CHR ''0''"
      by (simp add: string_of_nat_big string_of_nat_nonempty)
    with 1(1) False have "n div 10 = 0" by simp
    with False show ?thesis by simp
  qed
qed

lemma array_index_string_of_nat: "array_index (string_of_nat n) = Some n"
proof (cases "string_of_nat n")
  case Nil
  then show ?thesis by (simp add: string_of_nat_nonempty)
next
  case (Cons c cs)
  show ?thesis
  proof (cases "c = CHR ''0'' \<and> cs \<noteq> []")
    case True
    with Cons have "n = 0" using hd_string_of_nat [of n] by simp
    then have "string_of_nat n = [digit_char 0]" by (simp add: string_of_nat_small)
    with Cons True show ?thesis by simp
  next
    case False
    with Cons show ?thesis
      using digits_val_string_of_nat [of n] by (simp add: array_index_def)
  qed
qed

lemma dash_notin_string_of_nat: "CHR ''-'' \<notin> set (string_of_nat n)"
proof (induction n rule: string_of_nat.induct)
  case (1 n)
  show ?case
  proof (cases "n < 10")
    case True
    then show ?thesis using digit_char_not_dash [of n] by (auto simp: string_of_nat_small)
  next
    case False
    have "n mod 10 < 10" by simp
    with False 1 show ?thesis
      using digit_char_not_dash [of "n mod 10"] by (auto simp: string_of_nat_big)
  qed
qed

lemma split_on_no_sep: "sep \<notin> set xs \<Longrightarrow> split_on sep xs = [xs]"
  by (induction xs) auto

lemma split_on_append: "sep \<notin> set xs \<Longrightarrow> split_on sep (xs @ sep # ys) = xs # split_on sep ys"
  by (induction xs) auto

lemma id_keys_address:
  "id_keys (string_of_nat c @ CHR ''-'' # string_of_nat q) = (string_of_nat c, string_of_nat q)"
  by (simp add: id_keys_def dash_notin_string_of_nat split_on_no_sep split_on_append)

lemma get_property_index:
  "get_property proto xs (string_of_nat n) = (if n < length xs then Element n (xs ! n) else Undefined)"
  by (simp add: get_property_def array_index_string_of_nat)

lemma digit_chars: "map digit_char [0..<10] = ''0123456789''"
  by code_simp

subsection \<open>Sampling\<close>

lemma baseRandom_range:
  "index < length array \<Longrightarrow>
     index \<le> baseRandom r index (length array - 1) \<and> baseRandom r index (length array - 1) < length array"
proof -
  assume a: "index < length array"
  have "r mod Suc (length array - Suc index) < Suc (length array - Suc index)"
    by (rule mod_less_divisor) simp
  with a have "index + r mod Suc (length array - Suc index) < length array" by arith
  then show ?thesis by (simp add: baseRandom_def)
qed

lemma length_shuffleSelf_loop: "length (shuffleSelf_loop rnd sz index array) = length array"
proof (induction rnd sz index array rule: shuffleSelf_loop.induct)
  case (1 rnd sz index array)
  show ?case
  proof (cases "index < sz")
    case True
    with 1 show ?thesis by (subst shuffleSelf_loop.simps) (simp add: Let_def)
  next
    case False
    then show ?thesis by (subst shuffleSelf_loop.simps) simp
  qed
qed

lemma mset_shuffleSelf_loop:
  "sz \<le> length array \<Longrightarrow> mset (shuffleSelf_loop rnd sz index array) = mset array"
proof (induction rnd sz index array rule: shuffleSelf_loop.induct)
  case (1 rnd sz index array)
  show ?case
  proof (cases "index < sz")
    case True
    define rand where "rand = baseRandom (rnd index) index (length array - 1)"
    from True 1(2) have i: "index < length array" by simp
    then have r: "rand < length array"
      using baseRandom_range [of index array "rnd index"] by (simp add: rand_def)
    have swap: "mset (array[rand := array ! index, index := array ! rand]) = mset array"
      using i r by (rule mset_swap)
    have "mset (shuffleSelf_loop rnd sz (Suc index) (array[rand := array ! index, index := array ! rand]))
            = mset (array[rand := array ! index, index := array ! rand])"
      using 1(1) [OF True rand_def refl] 1(2) by simp
    with swap True show ?thesis
      by (subst shuffleSelf_loop.simps) (simp add: Let_def rand_def)
  next
    case False
    then show ?thesis by (subst shuffleSelf_loop.simps) simp
  qed
qed

lemma map_shuffleSelf_loop:
  "sz \<le> length array \<Longrightarrow>
     map f (shuffleSelf_loop rnd sz index array) = shuffleSelf_loop rnd sz index (map f array)"
proof (induction rnd sz index array rule: shuffleSelf_loop.induct)
  case (1 rnd sz index array)
  show ?case
  proof (cases "index < sz")
    case True
    define rand where "rand = baseRandom (rnd index) index (length array - 1)"
    from True 1(2) have i: "index < length array" by simp
    then have r: "rand < length array"
      using baseRandom_range [of index array "rnd index"] by (simp add: rand_def)
    have step: "map f (shuffleSelf_loop rnd sz (Suc index) (array[rand := array ! index, index := array ! rand]))
            = shuffleSelf_loop rnd sz (Suc index) (map f (array[rand := array ! index, index := array ! rand]))"
      using 1(1) [OF True rand_def refl] 1(2) by simp
    show ?thesis
      apply (subst shuffleSelf_loop.simps)
      apply (subst (2) shuffleSelf_loop.simps)
      using True i r step by (simp add: Let_def rand_def map_update)
  next
    case False
    then show ?thesis
      apply (subst shuffleSelf_loop.simps)
      apply (subst (2) shuffleSelf_loop.simps)
      by simp
  qed
qed

lemma length_sampleSize: "length (sampleSize rnd xs n) = min n (length xs)"
  by (simp add: sampleSize_def shuffleSelf_def length_shuffleSelf_loop)

lemma sampleSize_take:
  "\<exists>ys. mset ys = mset xs \<and> sampleSize rnd xs n = take (min n (length xs)) ys"
proof -
  let ?ys = "shuffleSelf_loop rnd (min n (length xs)) 0 xs"
  have "mset ?ys = mset xs" by (rule mset_shuffleSelf_loop) simp
  then show ?thesis by (auto simp: sampleSize_def shuffleSelf_def)
qed

lemma distinct_sampleSize: "distinct xs \<Longrightarrow> distinct (sampleSize rnd xs n)"
proof -
  assume d: "distinct xs"
  obtain ys where ys: "mset ys = mset xs" "sampleSize rnd xs n = take (min n (length xs)) ys"
    using sampleSize_take by blast
  from ys(1) d have "distinct ys" by (metis mset_eq_imp_distinct_iff)
  with ys(2) show ?thesis by simp
qed

lemma set_sampleSize: "set (sampleSize rnd xs n) \<subseteq> set xs"
proof -
  obtain ys where ys: "mset ys = mset xs" "sampleSize rnd xs n = take (min n (length xs)) ys"
    using sampleSize_take by blast
  from ys(1) have "set ys = set xs" by (rule mset_eq_setD)
  with ys(2) show ?thesis using set_take_subset [of "min n (length xs)" ys] by simp
qed

lemma sampleSize_all:
  "length xs \<le> n \<Longrightarrow> mset (sampleSize rnd xs n) = mset xs"
proof -
  assume "length xs \<le> n"
  then have m: "min n (length xs) = length xs" by simp
  show ?thesis
    by (simp add: sampleSize_def shuffleSelf_def m length_shuffleSelf_loop mset_shuffleSelf_loop)
qed

lemma map_sampleSize: "map f (sampleSize rnd xs n) = sampleSize rnd (map f xs) n"
  by (simp add: sampleSize_def shuffleSelf_def take_map [symmetric] map_shuffleSelf_loop)

lemma fillTable_cells_eq:
  "fillTable_cells clueIdx 0 [] = map (\<lambda>catIdx. new_td catIdx clueIdx) [0..<6]"
  by (simp add: fillTable_cells.simps upt_conv_Cons)

lemma fillTable_rows_eq:
  "fillTable_rows 0 w =
     w\<lparr>tbody := tbody w @ map (\<lambda>clueIdx. map (\<lambda>catIdx. new_td catIdx clueIdx) [0..<6]) [0..<5],
       calls := calls w @ replicate 5 AppendBody\<rparr>"
  by (simp add: fillTable_rows.simps fillTable_cells_eq upt_conv_Cons numeral_eq_Suc del: upt_Suc)

subsection \<open>The table\<close>

lemma fillTable_eq:
  "fillTable w =
     w\<lparr>start_disabled := False, start_text := ''Restart!'', spinner_shown := False,
       thead := thead w @ [map title (categories w)],
       tbody := map (\<lambda>clueIdx. map (\<lambda>catIdx. new_td catIdx clueIdx) [0..<6]) [0..<5],
       calls := calls w @ [StartText ''Restart!'', HideSpinner, AppendHead, EmptyBody] @
                  replicate 5 AppendBody\<rparr>"
  by (simp add: fillTable_def hideLoadingView_def fillTable_rows_eq Let_def)

lemma tbody_fillTable_nth:
  "clueIdx < 5 \<Longrightarrow> catIdx < 6 \<Longrightarrow> tbody (fillTable w) ! clueIdx ! catIdx = new_td catIdx clueIdx"
  by (simp add: fillTable_eq del: upt_Suc)

subsection \<open>Clicks\<close>

lemma math_world_eq:
  "math_world =
     \<lparr>categories =
        [\<lparr>title = ''Math'',
          clues = [\<lparr>question = ''2+2'', answer = ''4'', showing = Null\<rparr>,
                   \<lparr>question = ''1+1'', answer = ''2'', showing = Null\<rparr>]\<rparr>],
      start_text = ''Restart!'', start_disabled = False, spinner_shown = False,
      thead = [[''Math'']],
      tbody = map (\<lambda>clueIdx. map (\<lambda>catIdx. new_td catIdx clueIdx) [0..<6]) [0..<5],
      rng = (\<lambda>i. 3),
      calls = [StartText ''Restart!'', HideSpinner, AppendHead, EmptyBody,
               AppendBody, AppendBody, AppendBody, AppendBody, AppendBody],
      array_proto = [''constructor'' \<mapsto> Null]\<rparr>"
  by (simp add: math_world_def fillTable_eq first_page_def numeral_eq_Suc del: upt_Suc)

lemma categories_math_world:
  "categories math_world =
     [\<lparr>title = ''Math'',
       clues = [\<lparr>question = ''2+2'', answer = ''4'', showing = Null\<rparr>,
                \<lparr>question = ''1+1'', answer = ''2'', showing = Null\<rparr>]\<rparr>]"
  by (simp add: math_world_eq)

lemma array_proto_math_world: "array_proto math_world = [''constructor'' \<mapsto> Null]"
  by (simp add: math_world_eq)

lemma tbody_math_world:
  "tbody math_world = map (\<lambda>clueIdx. map (\<lambda>catIdx. new_td catIdx clueIdx) [0..<6]) [0..<5]"
  by (simp add: math_world_eq)

lemma td_math_world:
  "r < 5 \<Longrightarrow> c < 6 \<Longrightarrow> r < length (tbody math_world) \<and> c < length (tbody math_world ! r) \<and>
     tbody math_world ! r ! c = new_td c r"
  by (simp add: tbody_math_world del: upt_Suc)

lemma target_id_td:
  "r < length (tbody w) \<Longrightarrow> c < length (tbody w ! r) \<Longrightarrow>
     target_id w (Td r c) = attr_id (tbody w ! r ! c)"
  by (simp add: target_id_def)

lemma lookup_clue_address:
  assumes "target_id w tgt = Some (string_of_nat catIdx @ ''-'' @ string_of_nat clueIdx)"
    and "catIdx < length (categories w)"
    and "clueIdx < length (clues (categories w ! catIdx))"
  shows "lookup_clue w tgt =
           Inr (catIdx, Element clueIdx (clues (categories w ! catIdx) ! clueIdx))"
  using assms by (simp add: lookup_clue_def id_keys_address get_property_index)

lemma length_set_showing: "length (set_showing catIdx clueIdx s cats) = length cats"
  by (simp add: set_showing_def)

lemma set_showing_nth:
  "catIdx < length cats \<Longrightarrow> clueIdx < length (clues (cats ! catIdx)) \<Longrightarrow>
     clues (set_showing catIdx clueIdx s cats ! catIdx) ! clueIdx =
       (clues (cats ! catIdx) ! clueIdx)\<lparr>showing := s\<rparr>"
  by (simp add: set_showing_def)

lemma set_showing_frame:
  assumes "i < length cats"
  shows "title (set_showing catIdx clueIdx s cats ! i) = title (cats ! i) \<and>
     length (clues (set_showing catIdx clueIdx s cats ! i)) = length (clues (cats ! i)) \<and>
     (\<forall>j. (i, j) \<noteq> (catIdx, clueIdx) \<longrightarrow>
        clues (set_showing catIdx clueIdx s cats ! i) ! j = clues (cats ! i) ! j)"
proof (cases "i = catIdx")
  case True
  with assms show ?thesis by (simp add: set_showing_def)
next
  case False
  then show ?thesis by (simp add: set_showing_def)
qed

lemma update_target_td_nth:
  "r < length (tbody w) \<Longrightarrow> c < length (tbody w ! r) \<Longrightarrow>
     tbody (update_target (Td r c) f w) ! r ! c = f (tbody w ! r ! c)"
  by (simp add: update_target_def)

lemma update_target_td_frame:
  "length (tbody (update_target (Td r c) f w)) = length (tbody w) \<and>
   (\<forall>i<length (tbody w).
      length (tbody (update_target (Td r c) f w) ! i) = length (tbody w ! i) \<and>
      (\<forall>j. (i, j) \<noteq> (r, c) \<longrightarrow> tbody (update_target (Td r c) f w) ! i ! j = tbody w ! i ! j))"
proof (intro conjI allI impI)
  show "length (tbody (update_target (Td r c) f w)) = length (tbody w)"
    by (simp add: update_target_def)
next
  fix i assume "i < length (tbody w)"
  then show "length (tbody (update_target (Td r c) f w) ! i) = length (tbody w ! i)"
    by (cases "i = r") (simp_all add: update_target_def)
next
  fix i j assume "i < length (tbody w)" and "(i, j) \<noteq> (r, c)"
  then show "tbody (update_target (Td r c) f w) ! i ! j = tbody w ! i ! j"
    by (cases "i = r") (auto simp: update_target_def)
qed

lemma update_target_rest:
  "(update_target tgt f w)\<lparr>tbody := tbody w\<rparr> = w"
  by (cases tgt) (simp_all add: update_target_def)

lemma update_target_categories: "categories (update_target tgt f w) = categories w"
  by (cases tgt) (simp_all add: update_target_def)

text \<open>
  A click that lands on the cell itself, where the cell carries the address of a clue of
  the board: \<^verbatim>\<open>showing\<close> moves one step along null, question, answer and the cell in the
  page shows the question, then the answer with the class disabled, then stays as it is.
  Nothing else changes: every other clue, every other cell and the rest of the state are
  as before.
\<close>

lemma handleClick_on_td:
  assumes cell: "r < length (tbody w)" "c < length (tbody w ! r)"
    and ident: "attr_id (tbody w ! r ! c) =
                  Some (string_of_nat catIdx @ ''-'' @ string_of_nat clueIdx)"
    and cat: "catIdx < length (categories w)"
    and clue: "clueIdx < length (clues (categories w ! catIdx))"
    and run: "handleClick w (Td r c) = (res, w')"
  shows "res = Inr () \<and>
     (let clue = clues (categories w ! catIdx) ! clueIdx;
          clue' = clues (categories w' ! catIdx) ! clueIdx;
          td = tbody w ! r ! c;
          td' = tbody w' ! r ! c
      in (case showing clue of
            Null \<Rightarrow> showing clue' = Question \<and> td' = td\<lparr>html := Html (question clue)\<rparr>
          | Question \<Rightarrow>
              showing clue' = Answer \<and> td' = td\<lparr>disabled := True, html := Html (answer clue)\<rparr>
          | Answer \<Rightarrow> w' = w) \<and>
         question clue' = question clue \<and> answer clue' = answer clue) \<and>
     length (categories w') = length (categories w) \<and>
     (\<forall>i<length (categories w).
        title (categories w' ! i) = title (categories w ! i) \<and>
        length (clues (categories w' ! i)) = length (clues (categories w ! i)) \<and>
        (\<forall>j. (i, j) \<noteq> (catIdx, clueIdx) \<longrightarrow>
           clues (categories w' ! i) ! j = clues (categories w ! i) ! j)) \<and>
     length (tbody w') = length (tbody w) \<and>
     (\<forall>i<length (tbody w).
        length (tbody w' ! i) = length (tbody w ! i) \<and>
        (\<forall>j. (i, j) \<noteq> (r, c) \<longrightarrow> tbody w' ! i ! j = tbody w ! i ! j)) \<and>
     w'\<lparr>categories := categories w, tbody := tbody w\<rparr> = w"
proof -
  let ?clue = "clues (categories w ! catIdx) ! clueIdx"
  have tid: "target_id w (Td r c) = Some (string_of_nat catIdx @ ''-'' @ string_of_nat clueIdx)"
    using cell ident by (simp add: target_id_td)
  note l = lookup_clue_address [OF tid cat clue]
  have step: "\<And>s f. w' = update_target (Td r c) f
                  (w\<lparr>categories := set_showing catIdx clueIdx s (categories w)\<rparr>) \<Longrightarrow>
      showing (clues (categories w' ! catIdx) ! clueIdx) = s \<and>
      tbody w' ! r ! c = f (tbody w ! r ! c) \<and>
      question (clues (categories w' ! catIdx) ! clueIdx) = question ?clue \<and>
      answer (clues (categories w' ! catIdx) ! clueIdx) = answer ?clue \<and>
      length (categories w') = length (categories w) \<and>
      (\<forall>i<length (categories w).
        title (categories w' ! i) = title (categories w ! i) \<and>
        length (clues (categories w' ! i)) = length (clues (categories w ! i)) \<and>
        (\<forall>j. (i, j) \<noteq> (catIdx, clueIdx) \<longrightarrow>
           clues (categories w' ! i) ! j = clues (categories w ! i) ! j)) \<and>
      length (tbody w') = length (tbody w) \<and>
      (\<forall>i<length (tbody w).
        length (tbody w' ! i) = length (tbody w ! i) \<and>
        (\<forall>j. (i, j) \<noteq> (r, c) \<longrightarrow> tbody w' ! i ! j = tbody w ! i ! j)) \<and>
      w'\<lparr>categories := categories w, tbody := tbody w\<rparr> = w"
  proof -
    fix s f
    let ?v = "w\<lparr>categories := set_showing catIdx clueIdx s (categories w)\<rparr>"
    assume w': "w' = update_target (Td r c) f ?v"
    have k: "categories w' = set_showing catIdx clueIdx s (categories w)"
      using w' by (simp add: update_target_categories)
    have b: "tbody ?v = tbody w" by simp
    have "tbody w' ! r ! c = f (tbody w ! r ! c)"
      using w' cell update_target_td_nth [of r ?v c f] by simp
    moreover have "length (tbody w') = length (tbody w) \<and>
      (\<forall>i<length (tbody w).
        length (tbody w' ! i) = length (tbody w ! i) \<and>
        (\<forall>j. (i, j) \<noteq> (r, c) \<longrightarrow> tbody w' ! i ! j = tbody w ! i ! j))"
      using w' update_target_td_frame [of r c f ?v] by simp
    moreover have "w'\<lparr>categories := categories w, tbody := tbody w\<rparr> = w"
    proof -
      have "w'\<lparr>tbody := tbody ?v\<rparr> = ?v" using w' by (simp only: update_target_rest)
      then have "w'\<lparr>tbody := tbody w\<rparr> = ?v" by simp
      then have "(w'\<lparr>tbody := tbody w\<rparr>)\<lparr>categories := categories w\<rparr> =
          ?v\<lparr>categories := categories w\<rparr>" by simp
      then have "w'\<lparr>tbody := tbody w, categories := categories w\<rparr> = w" by simp
      moreover have "w'\<lparr>categories := categories w, tbody := tbody w\<rparr> =
          w'\<lparr>tbody := tbody w, categories := categories w\<rparr>"
        by (cases w') simp
      ultimately show ?thesis by simp
    qed
    moreover have "showing (clues (categories w' ! catIdx) ! clueIdx) = s"
      "question (clues (categories w' ! catIdx) ! clueIdx) = question ?clue"
      "answer (clues (categories w' ! catIdx) ! clueIdx) = answer ?clue"
      using k cat clue by (simp_all add: set_showing_nth)
    moreover have "length (categories w') = length (categories w)"
      using k by (simp add: length_set_showing)
    moreover have "\<forall>i<length (categories w).
        title (categories w' ! i) = title (categories w ! i) \<and>
        length (clues (categories w' ! i)) = length (clues (categories w ! i)) \<and>
        (\<forall>j. (i, j) \<noteq> (catIdx, clueIdx) \<longrightarrow>
           clues (categories w' ! i) ! j = clues (categories w ! i) ! j)"
      using k set_showing_frame [of _ "categories w" catIdx clueIdx s] by simp
    ultimately show "showing (clues (categories w' ! catIdx) ! clueIdx) = s \<and>
      tbody w' ! r ! c = f (tbody w ! r ! c) \<and>
      question (clues (categories w' ! catIdx) ! clueIdx) = question ?clue \<and>
      answer (clues (categories w' ! catIdx) ! clueIdx) = answer ?clue \<and>
      length (categories w') = length (categories w) \<and>
      (\<forall>i<length (categories w).
        title (categories w' ! i) = title (categories w ! i) \<and>
        length (clues (categories w' ! i)) = length (clues (categories w ! i)) \<and>
        (\<forall>j. (i, j) \<noteq> (catIdx, clueIdx) \<longrightarrow>
           clues (categories w' ! i) ! j = clues (categories w ! i) ! j)) \<and>
      length (tbody w') = length (tbody w) \<and>
      (\<forall>i<length (tbody w).
        length (tbody w' ! i) = length (tbody w ! i) \<and>
        (\<forall>j. (i, j) \<noteq> (r, c) \<longrightarrow> tbody w' ! i ! j = tbody w ! i ! j)) \<and>
      w'\<lparr>categories := categories w, tbody := tbody w\<rparr> = w"
      by blast
  qed
  show ?thesis
  proof (cases "showing ?clue")
    case Null
    with run l have "res = Inr ()"
      "w' = update_target (Td r c) (\<lambda>td. td\<lparr>html := Html (question ?clue)\<rparr>)
              (w\<lparr>categories := set_showing catIdx clueIdx Question (categories w)\<rparr>)"
      by (simp_all add: handleClick_def)
    with step [of "\<lambda>td. td\<lparr>html := Html (question ?clue)\<rparr>" Question] Null
    show ?thesis by (simp add: Let_def)
  next
    case Question
    with run l have "res = Inr ()"
      "w' = update_target (Td r c) (\<lambda>td. td\<lparr>disabled := True, html := Html (answer ?clue)\<rparr>)
              (w\<lparr>categories := set_showing catIdx clueIdx Answer (categories w)\<rparr>)"
      by (simp_all add: handleClick_def)
    with step [of "\<lambda>td. td\<lparr>disabled := True, html := Html (answer ?clue)\<rparr>" Answer] Question
    show ?thesis by (simp add: Let_def)
  next
    case Answer
    with run l have "res = Inr ()" "w' = w"
      by (simp_all add: handleClick_def)
    with Answer show ?thesis by (simp add: Let_def)
  qed
qed

lemma odd_world_eq:
  "categories odd_world = categories math_world \<and> array_proto odd_world = array_proto math_world \<and>
   tbody odd_world =
     [[td_with_id ''0-length'', td_with_id ''0-0'', td_with_id ''0-constructor'',
       td_with_id ''00-0'', td_with_id ''length-0'', td_with_id ''0'']]"
  by (simp add: odd_world_def)

lemma string_of_small: "string_of_nat 0 = ''0''" "string_of_nat 2 = ''2''"
  by code_simp+

lemma target_id_math_world:
  "target_id math_world (Inside 0 0) = None \<and>
   target_id math_world (Td 0 2) = Some ''2-0'' \<and>
   target_id math_world (Td 2 0) = Some ''0-2''"
proof -
  have "tbody math_world ! 0 ! 2 = new_td 2 0" "tbody math_world ! 2 ! 0 = new_td 0 2"
    "0 < length (tbody math_world)" "2 < length (tbody math_world ! 0)"
    "2 < length (tbody math_world)" "0 < length (tbody math_world ! 2)"
    using td_math_world [of 0 2] td_math_world [of 2 0] by simp_all
  then show ?thesis
    by (simp add: target_id_def new_td_def string_of_small)
qed

lemma target_id_odd_world:
  "target_id odd_world (Td 0 0) = Some ''0-length'' \<and>
   target_id odd_world (Td 0 2) = Some ''0-constructor'' \<and>
   target_id odd_world (Td 0 3) = Some ''00-0'' \<and>
   target_id odd_world (Td 0 4) = Some ''length-0'' \<and>
   target_id odd_world (Td 0 5) = Some ''0''"
  by (simp add: target_id_def odd_world_eq td_with_id_def)

text \<open>
  Three clicks in a row on the first cell itself: the question, then the answer with the
  class disabled, then no change.
\<close>

lemma three_clicks:
  "fst click1 = Inr () \<and>
   tbody (snd click1) ! 0 ! 0 = (new_td 0 0)\<lparr>html := Html ''2+2''\<rparr> \<and>
   showing (clues (categories (snd click1) ! 0) ! 0) = Question \<and>
   fst click2 = Inr () \<and>
   tbody (snd click2) ! 0 ! 0 = (new_td 0 0)\<lparr>disabled := True, html := Html ''4''\<rparr> \<and>
   showing (clues (categories (snd click2) ! 0) ! 0) = Answer \<and>
   fst click3 = Inr () \<and>
   snd click3 = snd click2"
proof -
  let ?id = "Some (string_of_nat 0 @ ''-'' @ string_of_nat 0)"
  note td0 = td_math_world [of 0 0]
  have c0: "0 < length (tbody math_world)" "0 < length (tbody math_world ! 0)"
    and id0: "attr_id (tbody math_world ! 0 ! 0) = ?id"
    using td0 by (simp_all add: new_td_def)
  have k0: "0 < length (categories math_world)"
    and q0: "0 < length (clues (categories math_world ! 0))"
    by (simp_all add: categories_math_world)
  obtain r1 w1 where run1: "handleClick math_world (Td 0 0) = (r1, w1)"
    by (cases "handleClick math_world (Td 0 0)")
  note h1 = handleClick_on_td [OF c0 id0 k0 q0 run1]
  from h1 td0 have s1: "r1 = Inr ()"
    "tbody w1 ! 0 ! 0 = (new_td 0 0)\<lparr>html := Html ''2+2''\<rparr>"
    "showing (clues (categories w1 ! 0) ! 0) = Question"
    "answer (clues (categories w1 ! 0) ! 0) = ''4''"
    by (simp_all add: Let_def categories_math_world)
  from h1 have f1: "length (categories w1) = length (categories math_world)"
    "length (clues (categories w1 ! 0)) = length (clues (categories math_world ! 0))"
    "length (tbody w1) = length (tbody math_world)"
    "length (tbody w1 ! 0) = length (tbody math_world ! 0)"
    using c0 k0 by auto
  have c1: "0 < length (tbody w1)" "0 < length (tbody w1 ! 0)"
    and id1: "attr_id (tbody w1 ! 0 ! 0) = ?id"
    and k1: "0 < length (categories w1)"
    and q1: "0 < length (clues (categories w1 ! 0))"
    using f1 c0 k0 q0 s1(2) by (simp_all add: new_td_def)
  obtain r2 w2 where run2: "handleClick w1 (Td 0 0) = (r2, w2)"
    by (cases "handleClick w1 (Td 0 0)")
  note h2 = handleClick_on_td [OF c1 id1 k1 q1 run2]
  from h2 s1 have s2: "r2 = Inr ()"
    "tbody w2 ! 0 ! 0 = (new_td 0 0)\<lparr>disabled := True, html := Html ''4''\<rparr>"
    "showing (clues (categories w2 ! 0) ! 0) = Answer"
    by (simp_all add: Let_def)
  from h2 have f2: "length (categories w2) = length (categories w1)"
    "length (clues (categories w2 ! 0)) = length (clues (categories w1 ! 0))"
    "length (tbody w2) = length (tbody w1)"
    "length (tbody w2 ! 0) = length (tbody w1 ! 0)"
    using c1 k1 by auto
  have c2: "0 < length (tbody w2)" "0 < length (tbody w2 ! 0)"
    and id2: "attr_id (tbody w2 ! 0 ! 0) = ?id"
    and k2: "0 < length (categories w2)"
    and q2: "0 < length (clues (categories w2 ! 0))"
    using f2 c1 k1 q1 s2(2) by (simp_all add: new_td_def)
  obtain r3 w3 where run3: "handleClick w2 (Td 0 0) = (r3, w3)"
    by (cases "handleClick w2 (Td 0 0)")
  note h3 = handleClick_on_td [OF c2 id2 k2 q2 run3]
  from h3 s2 have s3: "r3 = Inr ()" "w3 = w2"
    by (simp_all add: Let_def)
  from run1 run2 run3 s1 s2 s3 show ?thesis
    by (simp add: click1_def click2_def click3_def)
qed

text \<open>
  Claim C1. A click on the cell of a clue should move \<^verbatim>\<open>showing\<close> one step along null,
  question, answer and show the question, then the answer. A fresh cell is filled by its
  icon, and the handler reads the id of \<^verbatim>\<open>evt.target\<close>, which for a click on the icon is
  the icon and has none: on the page in mid-game, with the first clue at null, the click on
  the icon of its cell throws a \<^verbatim>\<open>TypeError\<close> and leaves everything as it was, where the
  comment above \<^verbatim>\<open>handleClick\<close> has the question shown and \<^verbatim>\<open>showing\<close> set to question.
\<close>

theorem handleClick_icon_click:
  "showing (clues (categories math_world ! 0) ! 0) = Null \<and>
   tbody math_world ! 0 ! 0 = new_td 0 0 \<and>
   html (new_td 0 0) = QuestionIcon \<and>
   target_id math_world (Inside 0 0) = None \<and>
   handleClick math_world (Inside 0 0) = (Inl TypeError, math_world) \<and>
   showing (clues (categories (snd (handleClick math_world (Inside 0 0))) ! 0) ! 0) = Null \<and>
   html (tbody (snd (handleClick math_world (Inside 0 0))) ! 0 ! 0) = QuestionIcon"
proof -
  have t: "target_id math_world (Inside 0 0) = None" by (simp add: target_id_def)
  then have h: "handleClick math_world (Inside 0 0) = (Inl TypeError, math_world)"
    by (simp add: handleClick_def lookup_clue_def)
  from t h td_math_world [of 0 0] show ?thesis
    by (simp add: categories_math_world new_td_def)
qed

text \<open>
  Claim C8. Round trip of the cell address: for a board and an address
  (\<open>catIdx\<close>, \<open>clueIdx\<close>) of one of its clues, the cell that \<^verbatim>\<open>fillTable\<close> puts in row
  \<open>clueIdx\<close>, column \<open>catIdx\<close> carries the id \<^verbatim>\<open>catIdx-clueIdx\<close>, and the lookup of the
  click handler on that cell gives the clue at \<open>clueIdx\<close> of the category at \<open>catIdx\<close>.
\<close>

theorem address_round_trip:
  assumes "catIdx < 6" and "clueIdx < 5"
    and "catIdx < length (categories w)"
    and "clueIdx < length (clues (categories w ! catIdx))"
  shows "attr_id (tbody (fillTable w) ! clueIdx ! catIdx) =
           Some (string_of_nat catIdx @ ''-'' @ string_of_nat clueIdx) \<and>
         target_id (fillTable w) (Td clueIdx catIdx) =
           Some (string_of_nat catIdx @ ''-'' @ string_of_nat clueIdx) \<and>
         lookup_clue (fillTable w) (Td clueIdx catIdx) =
           Inr (catIdx, Element clueIdx (clues (categories w ! catIdx) ! clueIdx))"
proof -
  have td: "tbody (fillTable w) ! clueIdx ! catIdx = new_td catIdx clueIdx"
    using assms(1,2) by (simp add: tbody_fillTable_nth)
  have r: "clueIdx < length (tbody (fillTable w))"
    "catIdx < length (tbody (fillTable w) ! clueIdx)"
    using assms(1,2) by (simp_all add: fillTable_eq del: upt_Suc)
  have c: "categories (fillTable w) = categories w" by (simp add: fillTable_eq)
  have a: "attr_id (tbody (fillTable w) ! clueIdx ! catIdx) =
      Some (string_of_nat catIdx @ ''-'' @ string_of_nat clueIdx)"
    using td by (simp add: new_td_def)
  with r have t: "target_id (fillTable w) (Td clueIdx catIdx) =
      Some (string_of_nat catIdx @ ''-'' @ string_of_nat clueIdx)"
    by (simp add: target_id_td)
  from lookup_clue_address [of "fillTable w" "Td clueIdx catIdx" catIdx clueIdx] t c assms(3,4)
  have "lookup_clue (fillTable w) (Td clueIdx catIdx) =
           Inr (catIdx, Element clueIdx (clues (categories w ! catIdx) ! clueIdx))"
    by simp
  with a t show ?thesis by simp
qed

theorem address_round_trip_witness:
  "(0::nat) < 6 \<and> (1::nat) < 5 \<and> 0 < length (categories math_world) \<and>
   1 < length (clues (categories math_world ! 0)) \<and>
   attr_id (tbody (fillTable math_world) ! 1 ! 0) = Some ''0-1'' \<and>
   target_id (fillTable math_world) (Td 1 0) = Some ''0-1'' \<and>
   lookup_clue (fillTable math_world) (Td 1 0) =
     Inr (0, Element 1 \<lparr>question = ''1+1'', answer = ''2'', showing = Null\<rparr>)"
  using address_round_trip [of 0 1 math_world] digit_chars
  by (simp add: categories_math_world string_of_nat_small upt_conv_Cons del: upt_Suc)

text \<open>
  Claim C10, as amended. The lookups of \<^verbatim>\<open>handleClick\<close> are unguarded: when the clicked
  element has no id (the icon inside a fresh cell), or the first part of its id does not
  give a category of the board, or the second part gives \<^verbatim>\<open>undefined\<close> in the clues of
  that category, the handler throws a \<^verbatim>\<open>TypeError\<close> and leaves the state and the element
  as they were. The remaining ids that name no clue, those whose second part is a property
  every array has (\<^verbatim>\<open>length\<close>, or an inherited name such as \<^verbatim>\<open>constructor\<close>), do not make
  the handler throw.
\<close>

theorem handleClick_throws:
  assumes "case target_id w tgt of
             None \<Rightarrow> True
           | Some ident \<Rightarrow>
               (case get_property (array_proto w) (categories w) (fst (id_keys ident)) of
                  Element catIdx cat \<Rightarrow>
                    get_property (array_proto w) (clues cat) (snd (id_keys ident)) = Undefined
                | _ \<Rightarrow> True)"
  shows "handleClick w tgt = (Inl TypeError, w)"
  using assms
  by (auto simp: handleClick_def lookup_clue_def split: option.splits property.splits prod.splits)

theorem handleClick_throws_witness:
  "target_id math_world (Inside 0 0) = None \<and>
   handleClick math_world (Inside 0 0) = (Inl TypeError, math_world) \<and>
   target_id math_world (Td 0 2) = Some ''2-0'' \<and>
   handleClick math_world (Td 0 2) = (Inl TypeError, math_world) \<and>
   target_id math_world (Td 2 0) = Some ''0-2'' \<and>
   handleClick math_world (Td 2 0) = (Inl TypeError, math_world) \<and>
   target_id odd_world (Td 0 3) = Some ''00-0'' \<and>
   handleClick odd_world (Td 0 3) = (Inl TypeError, odd_world) \<and>
   target_id odd_world (Td 0 4) = Some ''length-0'' \<and>
   handleClick odd_world (Td 0 4) = (Inl TypeError, odd_world) \<and>
   target_id odd_world (Td 0 5) = Some ''0'' \<and>
   handleClick odd_world (Td 0 5) = (Inl TypeError, odd_world)"
  using handleClick_throws [where tgt = "Inside 0 0" and w = math_world]
    handleClick_throws [where tgt = "Td 0 2" and w = math_world]
    handleClick_throws [where tgt = "Td 2 0" and w = math_world]
    handleClick_throws [where tgt = "Td 0 3" and w = odd_world]
    handleClick_throws [where tgt = "Td 0 4" and w = odd_world]
    handleClick_throws [where tgt = "Td 0 5" and w = odd_world]
  by (simp add: target_id_math_world target_id_odd_world odd_world_eq categories_math_world
      array_proto_math_world id_keys_def get_property_def array_index_def digit_val_def)

text \<open>
  The claim as first stated (every id that names no clue makes the handler throw) fails on
  the ids \<^verbatim>\<open>0-length\<close> and \<^verbatim>\<open>0-constructor\<close>: the handler returns normally.
\<close>

theorem handleClick_throws_counterexample:
  "target_id odd_world (Td 0 0) = Some ''0-length'' \<and>
   lookup_clue odd_world (Td 0 0) = Inr (0, ArrayLength) \<and>
   handleClick odd_world (Td 0 0) = (Inr (), odd_world) \<and>
   target_id odd_world (Td 0 2) = Some ''0-constructor'' \<and>
   lookup_clue odd_world (Td 0 2) = Inr (0, Inherited ''constructor'') \<and>
   fst (handleClick odd_world (Td 0 2)) = Inr ()"
  by (simp add: handleClick_def lookup_clue_def target_id_odd_world odd_world_eq
      categories_math_world array_proto_math_world id_keys_def get_property_def
      array_index_def digit_val_def)

text \<open>
  Claim C4. When the start button reads \<^verbatim>\<open>Loading...\<close>, as it does from
  \<^verbatim>\<open>showLoadingView\<close> until the table is filled, \<^verbatim>\<open>setupAndStart\<close> does nothing: no
  request is made and \<^verbatim>\<open>categories\<close>, the table and the loading view stay as they are.
\<close>

theorem setupAndStart_while_loading:
  assumes "start_text w = ''Loading...''"
  shows "setupAndStart rem w = (Inr (), w)"
  using assms by (simp add: setupAndStart_def)

theorem setupAndStart_while_loading_witness:
  "start_text (showLoadingView first_page) = ''Loading...'' \<and>
   setupAndStart full_remote (showLoadingView first_page) = (Inr (), showLoadingView first_page) \<and>
   start_text (snd (getCategoryIds full_remote (showLoadingView first_page))) = ''Loading...'' \<and>
   setupAndStart full_remote (snd (getCategoryIds full_remote (showLoadingView first_page))) =
     (Inr (), snd (getCategoryIds full_remote (showLoadingView first_page)))"
  using setupAndStart_while_loading [of "showLoadingView first_page" full_remote]
    setupAndStart_while_loading [of "snd (getCategoryIds full_remote (showLoadingView first_page))" full_remote]
  by (simp add: showLoadingView_def getCategoryIds_def full_remote_def drawn_def)

subsection \<open>The fetch loop\<close>

lemma getCategory_Inl:
  "category_api rem catId = Inl e \<Longrightarrow>
     getCategory rem catId w = (Inl e, w\<lparr>calls := calls w @ [GetCategory catId]\<rparr>)"
  by (simp add: getCategory_def)

lemma getCategory_Inr:
  "category_api rem catId = Inr cat \<Longrightarrow>
     getCategory rem catId w =
       (Inr \<lparr>title = title cat,
             clues = map board_clue
                       (sampleSize (rng w) (clues cat) 5)\<rparr>,
        drawn (min 5 (length (clues cat))) (w\<lparr>calls := calls w @ [GetCategory catId]\<rparr>))"
  by (simp add: getCategory_def)

lemma getCategory_frame:
  "getCategory rem catId w = (res, w') \<Longrightarrow>
     categories w' = categories w \<and> start_text w' = start_text w \<and>
     start_disabled w' = start_disabled w \<and> spinner_shown w' = spinner_shown w \<and>
     thead w' = thead w \<and> tbody w' = tbody w \<and> array_proto w' = array_proto w \<and>
     calls w' = calls w @ [GetCategory catId]"
  by (cases "category_api rem catId") (auto simp: getCategory_Inl getCategory_Inr drawn_def)

lemma loop_frame:
  "setupAndStart_loop rem catIds w = (res, w') \<Longrightarrow>
     start_text w' = start_text w \<and> start_disabled w' = start_disabled w \<and>
     spinner_shown w' = spinner_shown w \<and> thead w' = thead w \<and> tbody w' = tbody w \<and>
     array_proto w' = array_proto w"
proof (induction catIds arbitrary: w)
  case Nil
  then show ?case by simp
next
  case (Cons catId catIds)
  obtain r w1 where g: "getCategory rem catId w = (r, w1)" by (cases "getCategory rem catId w")
  note f = getCategory_frame [OF g]
  show ?case
  proof (cases r)
    case (Inl e)
    with Cons.prems g f show ?thesis by auto
  next
    case (Inr cat)
    with Cons.prems g
    have "setupAndStart_loop rem catIds (w1\<lparr>categories := categories w1 @ [cat]\<rparr>) = (res, w')"
      by simp
    from Cons.IH [OF this] f show ?thesis by simp
  qed
qed

lemma loop_resolved:
  "setupAndStart_loop rem catIds w = (Inr u, w') \<Longrightarrow>
     calls w' = calls w @ map GetCategory catIds \<and>
     (\<exists>cats. categories w' = categories w @ cats \<and>
        list_all2 (fetched rem) catIds cats)"
proof (induction catIds arbitrary: w)
  case Nil
  then show ?case by simp
next
  case (Cons catId catIds)
  show ?case
  proof (cases "category_api rem catId")
    case (Inl e)
    with Cons.prems show ?thesis by (simp add: getCategory_Inl)
  next
    case (Inr rc)
    let ?cat = "\<lparr>title = title rc,
        clues = map board_clue
                  (sampleSize (rng w) (clues rc) 5)\<rparr>"
    let ?w1 = "drawn (min 5 (length (clues rc))) (w\<lparr>calls := calls w @ [GetCategory catId]\<rparr>)"
    from Cons.prems Inr
    have run: "setupAndStart_loop rem catIds (?w1\<lparr>categories := categories ?w1 @ [?cat]\<rparr>) = (Inr u, w')"
      by (simp add: getCategory_Inr)
    from Cons.IH [OF run] obtain cats where
      c: "calls w' = calls w @ GetCategory catId # map GetCategory catIds"
      and k: "categories w' = categories w @ ?cat # cats"
      and a: "list_all2 (fetched rem) catIds cats"
      by (auto simp: drawn_def)
    have "fetched rem catId ?cat"
      using Inr by blast
    with a have "list_all2 (fetched rem) (catId # catIds) (?cat # cats)"
      by simp
    with c k show ?thesis by auto
  qed
qed

lemma getCategoryIds_Inl:
  "categories_api rem = Inl e \<Longrightarrow>
     getCategoryIds rem w = (Inl e, w\<lparr>calls := calls w @ [GetCategories]\<rparr>)"
  by (simp add: getCategoryIds_def)

lemma getCategoryIds_Inr:
  "categories_api rem = Inr data \<Longrightarrow>
     getCategoryIds rem w =
       (Inr (sampleSize (rng w) (map cat_id data) 6),
        drawn (min 6 (length data)) (w\<lparr>calls := calls w @ [GetCategories]\<rparr>))"
  by (simp add: getCategoryIds_def)

lemma setupAndStart_ids_rejected:
  assumes idle: "start_text w \<noteq> ''Loading...''"
    and down: "categories_api rem = Inl e"
  shows "setupAndStart rem w =
     (Inl e, (showLoadingView w)\<lparr>calls := calls (showLoadingView w) @ [GetCategories]\<rparr>)"
  using idle down by (simp add: setupAndStart_def getCategoryIds_Inl Let_def)

lemma setupAndStart_resolved_data:
  assumes idle: "start_text w \<noteq> ''Loading...''"
    and run: "setupAndStart rem w = (Inr u, w')"
  shows "\<exists>data. categories_api rem = Inr data"
proof (cases "categories_api rem")
  case (Inl e)
  with idle run show ?thesis by (simp add: setupAndStart_ids_rejected)
next
  case (Inr data)
  then show ?thesis by simp
qed

lemma setupAndStart_resolved:
  assumes idle: "start_text w \<noteq> ''Loading...''"
    and run: "setupAndStart rem w = (Inr u, w')"
    and data: "categories_api rem = Inr data"
  shows "list_all2 (fetched rem)
        (sampleSize (rng w) (map cat_id data) 6) (categories w')"
    and "start_text w' = ''Restart!''" and "start_disabled w' = False"
    and "spinner_shown w' = False"
    and "thead w' = [map title (categories w')]"
    and "tbody w' = map (\<lambda>clueIdx. map (\<lambda>catIdx. new_td catIdx clueIdx) [0..<6]) [0..<5]"
    and "array_proto w' = array_proto w"
    and "calls w' = calls w @ [EmptyHead, EmptyBody, ShowSpinner, StartText ''Loading...'', GetCategories] @
        map GetCategory (sampleSize (rng w) (map cat_id data) 6) @
        [StartText ''Restart!'', HideSpinner, AppendHead, EmptyBody] @ replicate 5 AppendBody"
proof -
  let ?ids = "sampleSize (rng w) (map cat_id data) 6"
  let ?w2 = "drawn (min 6 (length data))
               ((showLoadingView w)\<lparr>calls := calls (showLoadingView w) @ [GetCategories]\<rparr>)"
  let ?w3 = "?w2\<lparr>categories := []\<rparr>"
  have ids: "getCategoryIds rem (showLoadingView w) = (Inr ?ids, ?w2)"
    using data by (simp add: getCategoryIds_Inr showLoadingView_def)
  obtain r w4 where loop: "setupAndStart_loop rem ?ids ?w3 = (r, w4)"
    by (cases "setupAndStart_loop rem ?ids ?w3")
  from idle run ids loop have r: "r = Inr ()" and w': "w' = fillTable w4"
    by (auto simp: setupAndStart_def Let_def split: sum.splits)
  from loop r have loop': "setupAndStart_loop rem ?ids ?w3 = (Inr (), w4)" by simp
  from loop_resolved [OF loop'] obtain cats where
    c4: "calls w4 = calls ?w3 @ map GetCategory ?ids"
    and k4: "categories w4 = cats"
    and all: "list_all2 (fetched rem) ?ids cats"
    by (auto simp: drawn_def)
  note f4 = loop_frame [OF loop']
  have pre: "thead w4 = []" "array_proto w4 = array_proto w"
    "calls w4 = calls w @ [EmptyHead, EmptyBody, ShowSpinner, StartText ''Loading...'', GetCategories] @
        map GetCategory ?ids"
    using f4 c4 by (simp_all add: drawn_def showLoadingView_def)
  have k': "categories w' = cats" using w' k4 by (simp add: fillTable_eq)
  with all show "list_all2 (fetched rem) ?ids (categories w')"
    by simp
  show "start_text w' = ''Restart!''" "start_disabled w' = False" "spinner_shown w' = False"
    using w' by (simp_all add: fillTable_eq)
  show "thead w' = [map title (categories w')]"
    using w' pre(1) by (simp add: fillTable_eq)
  show "tbody w' = map (\<lambda>clueIdx. map (\<lambda>catIdx. new_td catIdx clueIdx) [0..<6]) [0..<5]"
    using w' by (simp add: fillTable_eq del: upt_Suc)
  show "array_proto w' = array_proto w"
    using w' pre(2) by (simp add: fillTable_eq)
  show "calls w' = calls w @ [EmptyHead, EmptyBody, ShowSpinner, StartText ''Loading...'', GetCategories] @
        map GetCategory ?ids @
        [StartText ''Restart!'', HideSpinner, AppendHead, EmptyBody] @ replicate 5 AppendBody"
    using w' pre(3) by (simp add: fillTable_eq del: replicate.simps)
qed

lemma loop_rejected:
  "k < length catIds \<Longrightarrow> category_api rem (catIds ! k) = Inl e \<Longrightarrow>
   \<forall>j<k. \<exists>rc. category_api rem (catIds ! j) = Inr rc \<Longrightarrow>
     \<exists>w' cats. setupAndStart_loop rem catIds w = (Inl e, w') \<and>
        categories w' = categories w @ cats \<and>
        list_all2 (fetched rem) (take k catIds) cats \<and>
        calls w' = calls w @ map GetCategory (take (Suc k) catIds)"
proof (induction catIds arbitrary: w k)
  case Nil
  then show ?case by simp
next
  case (Cons catId catIds)
  show ?case
  proof (cases k)
    case 0
    with Cons.prems show ?thesis by (simp add: getCategory_Inl)
  next
    case (Suc k')
    from Cons.prems(3) Suc obtain rc where rc: "category_api rem catId = Inr rc" by fastforce
    let ?cat = "\<lparr>title = title rc,
        clues = map board_clue
                  (sampleSize (rng w) (clues rc) 5)\<rparr>"
    let ?w1 = "drawn (min 5 (length (clues rc))) (w\<lparr>calls := calls w @ [GetCategory catId]\<rparr>)"
    have k': "k' < length catIds" using Cons.prems(1) Suc by simp
    have e: "category_api rem (catIds ! k') = Inl e" using Cons.prems(2) Suc by simp
    have p: "\<forall>j<k'. \<exists>rc. category_api rem (catIds ! j) = Inr rc"
    proof (intro allI impI)
      fix j assume "j < k'"
      then have "Suc j < k" using Suc by simp
      with Cons.prems(3) have "\<exists>rc. category_api rem ((catId # catIds) ! Suc j) = Inr rc" by blast
      then show "\<exists>rc. category_api rem (catIds ! j) = Inr rc" by simp
    qed
    from Cons.IH [OF k' e p, of "?w1\<lparr>categories := categories ?w1 @ [?cat]\<rparr>"]
    obtain w' cats where
      r: "setupAndStart_loop rem catIds (?w1\<lparr>categories := categories ?w1 @ [?cat]\<rparr>) = (Inl e, w')"
      and c: "categories w' = categories w @ ?cat # cats"
      and a: "list_all2 (fetched rem) (take k' catIds) cats"
      and l: "calls w' = calls w @ GetCategory catId # map GetCategory (take (Suc k') catIds)"
      by (auto simp: drawn_def)
    have "fetched rem catId ?cat"
      using rc by blast
    with a have "list_all2 (fetched rem) (take k (catId # catIds)) (?cat # cats)"
      using Suc by simp
    with r c l rc Suc show ?thesis by (simp add: getCategory_Inr)
  qed
qed

lemma setupAndStart_category_rejected:
  assumes idle: "start_text w \<noteq> ''Loading...''"
    and data: "categories_api rem = Inr data"
    and k: "k < length (sampleSize (rng w) (map cat_id data) 6)"
    and e: "category_api rem (sampleSize (rng w) (map cat_id data) 6 ! k) = Inl e"
    and p: "\<forall>j<k. \<exists>rc. category_api rem (sampleSize (rng w) (map cat_id data) 6 ! j) = Inr rc"
  shows "\<exists>w'. setupAndStart rem w = (Inl e, w') \<and>
     list_all2 (fetched rem)
        (take k (sampleSize (rng w) (map cat_id data) 6)) (categories w') \<and>
     thead w' = [] \<and> tbody w' = [] \<and> start_text w' = ''Loading...'' \<and>
     start_disabled w' \<and> spinner_shown w'"
proof -
  let ?ids = "sampleSize (rng w) (map cat_id data) 6"
  let ?w2 = "drawn (min 6 (length data))
               ((showLoadingView w)\<lparr>calls := calls (showLoadingView w) @ [GetCategories]\<rparr>)"
  let ?w3 = "?w2\<lparr>categories := []\<rparr>"
  have ids: "getCategoryIds rem (showLoadingView w) = (Inr ?ids, ?w2)"
    using data by (simp add: getCategoryIds_Inr showLoadingView_def)
  from loop_rejected [OF k e p, of ?w3] obtain w' cats where
    r: "setupAndStart_loop rem ?ids ?w3 = (Inl e, w')"
    and c: "categories w' = cats"
    and a: "list_all2 (fetched rem) (take k ?ids) cats"
    by (auto simp: drawn_def)
  note f = loop_frame [OF r]
  have "thead w' = []" "tbody w' = []" "start_text w' = ''Loading...''"
    "start_disabled w'" "spinner_shown w'"
    using f by (simp_all add: drawn_def showLoadingView_def)
  moreover have "setupAndStart rem w = (Inl e, w')"
    using idle ids r by (simp add: setupAndStart_def Let_def)
  ultimately show ?thesis using a c by blast
qed

subsection \<open>Restarts\<close>

lemma sample_ids: "sampleSize (\<lambda>i. 3) [11, 12, 13, 14, 15, 16, 17, 18::nat] 6 = [14, 15, 16, 17, 18, 13]"
  by code_simp

lemma sample_ids_short: "sampleSize (\<lambda>i. 3) [11, 12::nat] 6 = [12, 11]"
  by code_simp

lemma sample_clues:
  "sampleSize (\<lambda>i. 3) math_clues 5 =
     [\<lparr>question = ''10/2'', answer = ''5'', \<dots> = 400\<rparr>,
      \<lparr>question = ''7-4'', answer = ''3'', \<dots> = 500\<rparr>,
      \<lparr>question = ''6+1'', answer = ''7'', \<dots> = 600\<rparr>,
      \<lparr>question = ''8*2'', answer = ''16'', \<dots> = 800\<rparr>,
      \<lparr>question = ''1+1'', answer = ''2'', \<dots> = 200\<rparr>]"
  by code_simp

lemma sample_clues_short:
  "sampleSize (\<lambda>i. 3) (take 3 math_clues) 5 =
     [\<lparr>question = ''2+2'', answer = ''4'', \<dots> = 100\<rparr>,
      \<lparr>question = ''3*3'', answer = ''9'', \<dots> = 300\<rparr>,
      \<lparr>question = ''1+1'', answer = ''2'', \<dots> = 200\<rparr>]"
  by code_simp


lemmas run_defs = setupAndStart_def getCategoryIds_def getCategory_def showLoadingView_def
  drawn_def first_page_def fillTable_eq Let_def board_clue_def

lemma run_full:
  "setupAndStart full_remote first_page =
     (let cat = \<lparr>title = ''Math'',
            clues = [\<lparr>question = ''10/2'', answer = ''5'', showing = Null\<rparr>,
                     \<lparr>question = ''7-4'', answer = ''3'', showing = Null\<rparr>,
                     \<lparr>question = ''6+1'', answer = ''7'', showing = Null\<rparr>,
                     \<lparr>question = ''8*2'', answer = ''16'', showing = Null\<rparr>,
                     \<lparr>question = ''1+1'', answer = ''2'', showing = Null\<rparr>]\<rparr>
      in (Inr (),
      \<lparr>categories = [cat, cat, cat, cat, cat, cat],
       start_text = ''Restart!'', start_disabled = False, spinner_shown = False,
       thead = [[''Math'', ''Math'', ''Math'', ''Math'', ''Math'', ''Math'']],
       tbody = map (\<lambda>clueIdx. map (\<lambda>catIdx. new_td catIdx clueIdx) [0..<6]) [0..<5],
       rng = (\<lambda>i. 3),
       calls = [EmptyHead, EmptyBody, ShowSpinner, StartText ''Loading...'', GetCategories,
                GetCategory 14, GetCategory 15, GetCategory 16, GetCategory 17, GetCategory 18,
                GetCategory 13, StartText ''Restart!'', HideSpinner, AppendHead, EmptyBody,
                AppendBody, AppendBody, AppendBody, AppendBody, AppendBody],
       array_proto = [''constructor'' \<mapsto> Null]\<rparr>))"
  by (simp add: run_defs full_remote_def sample_ids sample_clues del: upt_Suc replicate.simps)
     (simp add: numeral_eq_Suc)


lemma run_short:
  "setupAndStart short_remote first_page =
     (let cat = \<lparr>title = ''Math'',
            clues = [\<lparr>question = ''2+2'', answer = ''4'', showing = Null\<rparr>,
                     \<lparr>question = ''3*3'', answer = ''9'', showing = Null\<rparr>,
                     \<lparr>question = ''1+1'', answer = ''2'', showing = Null\<rparr>]\<rparr>
      in (Inr (),
      \<lparr>categories = [cat, cat],
       start_text = ''Restart!'', start_disabled = False, spinner_shown = False,
       thead = [[''Math'', ''Math'']],
       tbody = map (\<lambda>clueIdx. map (\<lambda>catIdx. new_td catIdx clueIdx) [0..<6]) [0..<5],
       rng = (\<lambda>i. 3),
       calls = [EmptyHead, EmptyBody, ShowSpinner, StartText ''Loading...'', GetCategories,
                GetCategory 12, GetCategory 11, StartText ''Restart!'', HideSpinner,
                AppendHead, EmptyBody,
                AppendBody, AppendBody, AppendBody, AppendBody, AppendBody],
       array_proto = [''constructor'' \<mapsto> Null]\<rparr>))"
  by (simp add: run_defs short_remote_def sample_ids_short sample_clues_short
        del: upt_Suc replicate.simps)
     (simp add: numeral_eq_Suc)


lemma list_all2_member:
  "list_all2 P xs ys \<Longrightarrow> y \<in> set ys \<Longrightarrow> \<exists>x. P x y"
  by (auto simp: list_all2_conv_all_nth in_set_conv_nth)

text \<open>
  Claim C3, as amended. For every restart that resolves, the calls come in this order:
  the loading view is entered (table emptied, spinner shown, button relabelled), the ids
  are fetched, then each category in turn; the loading view is left (\<^verbatim>\<open>hideLoadingView\<close>
  is the first statement of \<^verbatim>\<open>fillTable\<close>); and only then the grid is emitted: the header
  row, the emptied body and its five rows.
\<close>

theorem setupAndStart_call_order:
  assumes idle: "start_text w \<noteq> ''Loading...''"
    and run: "setupAndStart rem w = (Inr (), w')"
  shows "\<exists>catIds.
     calls w' =
       calls w @ [EmptyHead, EmptyBody, ShowSpinner, StartText ''Loading...''] @
       GetCategories # map GetCategory catIds @
       [StartText ''Restart!'', HideSpinner] @
       [AppendHead, EmptyBody, AppendBody, AppendBody, AppendBody, AppendBody, AppendBody]"
proof -
  from setupAndStart_resolved_data [OF idle run] obtain data
    where data: "categories_api rem = Inr data" by blast
  from setupAndStart_resolved(8) [OF idle run data]
  have "calls w' =
       calls w @ [EmptyHead, EmptyBody, ShowSpinner, StartText ''Loading...''] @
       GetCategories # map GetCategory (sampleSize (rng w) (map cat_id data) 6) @
       [StartText ''Restart!'', HideSpinner] @
       [AppendHead, EmptyBody, AppendBody, AppendBody, AppendBody, AppendBody, AppendBody]"
    by (simp add: numeral_eq_Suc)
  then show ?thesis by blast
qed

theorem setupAndStart_call_order_witness:
  "start_text first_page \<noteq> ''Loading...'' \<and>
   fst (setupAndStart full_remote first_page) = Inr () \<and>
   (\<exists>catIds.
      calls (snd (setupAndStart full_remote first_page)) =
        calls first_page @ [EmptyHead, EmptyBody, ShowSpinner, StartText ''Loading...''] @
        GetCategories # map GetCategory catIds @
        [StartText ''Restart!'', HideSpinner] @
        [AppendHead, EmptyBody, AppendBody, AppendBody, AppendBody, AppendBody, AppendBody])"
proof -
  have idle: "start_text first_page \<noteq> ''Loading...''" by (simp add: first_page_def)
  have ok: "fst (setupAndStart full_remote first_page) = Inr ()"
    by (simp add: run_full Let_def)
  then have run: "setupAndStart full_remote first_page =
      (Inr (), snd (setupAndStart full_remote first_page))"
    by (metis prod.collapse)
  from setupAndStart_call_order [OF idle run] idle ok show ?thesis by blast
qed

text \<open>
  The claim as first stated puts the exit from the loading view after the grid. In the
  sample game the button is relabelled and the spinner hidden before the first append.
\<close>

theorem setupAndStart_call_order_counterexample:
  "fst (setupAndStart full_remote first_page) = Inr () \<and>
   calls (snd (setupAndStart full_remote first_page)) =
     [EmptyHead, EmptyBody, ShowSpinner, StartText ''Loading...'', GetCategories,
      GetCategory 14, GetCategory 15, GetCategory 16, GetCategory 17, GetCategory 18,
      GetCategory 13, StartText ''Restart!'', HideSpinner, AppendHead, EmptyBody,
      AppendBody, AppendBody, AppendBody, AppendBody, AppendBody]"
  by (simp add: run_full Let_def)

text \<open>
  Claim C5. After a restart that resolves, the body of the table is exactly the 5 rows of
  6 fresh cells (30 cells, each with the icon and without the class disabled), the head is
  exactly one row with one header cell per category, every clue of the board has
  \<^verbatim>\<open>showing\<close> null, and both parts of the table were emptied before anything was appended:
  nothing of the previous table is left.
\<close>

theorem setupAndStart_fresh_grid:
  assumes idle: "start_text w \<noteq> ''Loading...''"
    and run: "setupAndStart rem w = (Inr (), w')"
  shows "tbody w' = map (\<lambda>clueIdx. map (\<lambda>catIdx. new_td catIdx clueIdx) [0..<6]) [0..<5] \<and>
     length (concat (tbody w')) = 6 * 5 \<and>
     (\<forall>td \<in> set (concat (tbody w')). html td = QuestionIcon \<and> \<not> disabled td) \<and>
     thead w' = [map title (categories w')] \<and>
     (\<forall>cat \<in> set (categories w'). \<forall>c \<in> set (clues cat). showing c = Null) \<and>
     (\<exists>rest. calls w' = calls w @ EmptyHead # EmptyBody # rest \<and>
        EmptyHead \<notin> set rest \<and> AppendHead \<in> set rest \<and> AppendBody \<in> set rest)"
proof -
  from setupAndStart_resolved_data [OF idle run] obtain data
    where data: "categories_api rem = Inr data" by blast
  note r = setupAndStart_resolved [OF idle run data]
  note all = r(1) and h = r(5) and b = r(6) and c = r(8)
  have n: "length (concat (tbody w')) = 6 * 5"
    by (simp add: b upt_conv_Cons del: upt_Suc)
  have cells: "\<forall>td \<in> set (concat (tbody w')). html td = QuestionIcon \<and> \<not> disabled td"
    by (auto simp: b new_td_def)
  have hidden: "\<forall>cat \<in> set (categories w'). \<forall>c \<in> set (clues cat). showing c = Null"
  proof
    fix cat assume "cat \<in> set (categories w')"
    with all have "\<exists>catId. fetched rem catId cat" by (rule list_all2_member)
    then show "\<forall>c \<in> set (clues cat). showing c = Null" by (auto simp: board_clue_def)
  qed
  let ?rest = "[ShowSpinner, StartText ''Loading...'', GetCategories] @
        map GetCategory (sampleSize (rng w) (map cat_id data) 6) @
        [StartText ''Restart!'', HideSpinner, AppendHead, EmptyBody] @ replicate 5 AppendBody"
  have "calls w' = calls w @ EmptyHead # EmptyBody # ?rest" using c by simp
  moreover have "EmptyHead \<notin> set ?rest" "AppendHead \<in> set ?rest" "AppendBody \<in> set ?rest"
    by auto
  ultimately have "\<exists>rest. calls w' = calls w @ EmptyHead # EmptyBody # rest \<and>
        EmptyHead \<notin> set rest \<and> AppendHead \<in> set rest \<and> AppendBody \<in> set rest"
    by blast
  with b n cells h hidden show ?thesis by blast
qed


theorem setupAndStart_fresh_grid_witness:
  "start_text first_page \<noteq> ''Loading...'' \<and>
   fst (setupAndStart full_remote first_page) = Inr () \<and>
   length (concat (tbody (snd (setupAndStart full_remote first_page)))) = 30 \<and>
   list_all (\<lambda>td. html td = QuestionIcon \<and> \<not> disabled td)
     (concat (tbody (snd (setupAndStart full_remote first_page)))) \<and>
   thead (snd (setupAndStart full_remote first_page)) =
     [[''Math'', ''Math'', ''Math'', ''Math'', ''Math'', ''Math'']] \<and>
   list_all (\<lambda>cat. list_all (\<lambda>c. showing c = Null) (clues cat))
     (categories (snd (setupAndStart full_remote first_page)))"
proof -
  have idle: "start_text first_page \<noteq> ''Loading...''" by (simp add: first_page_def)
  have ok: "fst (setupAndStart full_remote first_page) = Inr ()"
    by (simp add: run_full Let_def)
  then have run: "setupAndStart full_remote first_page =
      (Inr (), snd (setupAndStart full_remote first_page))"
    by (metis prod.collapse)
  have h: "thead (snd (setupAndStart full_remote first_page)) =
     [[''Math'', ''Math'', ''Math'', ''Math'', ''Math'', ''Math'']]"
    by (simp add: run_full Let_def)
  note g = setupAndStart_fresh_grid [OF idle run]
  from g have "length (concat (tbody (snd (setupAndStart full_remote first_page)))) = 6 * 5"
    by (elim conjE)
  then have n: "length (concat (tbody (snd (setupAndStart full_remote first_page)))) = 30"
    by simp
  from g have cells: "list_all (\<lambda>td. html td = QuestionIcon \<and> \<not> disabled td)
     (concat (tbody (snd (setupAndStart full_remote first_page))))"
    unfolding list_all_iff by blast
  from g have hidden: "list_all (\<lambda>cat. list_all (\<lambda>c. showing c = Null) (clues cat))
     (categories (snd (setupAndStart full_remote first_page)))"
    unfolding list_all_iff by blast
  from idle ok n cells h hidden show ?thesis by blast
qed

lemma list_all2_member_set:
  "list_all2 P xs ys \<Longrightarrow> y \<in> set ys \<Longrightarrow> \<exists>x \<in> set xs. P x y"
  by (induction rule: list_all2_induct) auto

text \<open>
  Claim C6, as amended. A board from a restart that resolves has min(6, number of
  candidates) categories, one for each selected id and in the order of the ids, and the
  category for an id has min(5, number of clues of the remote category fetched for that
  id) clues: exactly 6 categories of exactly 5 clues when the service lists at least 6
  candidates and every fetched category has at least 5 clues.
\<close>

theorem board_size:
  assumes idle: "start_text w \<noteq> ''Loading...''"
    and run: "setupAndStart rem w = (Inr (), w')"
  shows "\<exists>data catIds.
     categories_api rem = Inr data \<and>
     fst (getCategoryIds rem (showLoadingView w)) = Inr catIds \<and>
     length catIds = min 6 (length data) \<and>
     length (categories w') = min 6 (length data) \<and>
     list_all2
       (\<lambda>catId cat. \<exists>rc. category_api rem catId = Inr rc \<and> title cat = title rc \<and>
          length (clues cat) = min 5 (length (clues rc)))
       catIds (categories w') \<and>
     (6 \<le> length data \<and>
      (\<forall>catId \<in> set catIds. \<forall>rc. category_api rem catId = Inr rc \<longrightarrow> 5 \<le> length (clues rc))
        \<longrightarrow> length (categories w') = 6 \<and> (\<forall>cat \<in> set (categories w'). length (clues cat) = 5))"
proof -
  from setupAndStart_resolved_data [OF idle run] obtain data
    where data: "categories_api rem = Inr data" by blast
  let ?ids = "sampleSize (rng w) (map cat_id data) 6"
  let ?P = "\<lambda>catId cat. \<exists>rc. category_api rem catId = Inr rc \<and> title cat = title rc \<and>
          length (clues cat) = min 5 (length (clues rc))"
  note all = setupAndStart_resolved(1) [OF idle run data]
  have g: "fst (getCategoryIds rem (showLoadingView w)) = Inr ?ids"
    using data by (simp add: getCategoryIds_Inr showLoadingView_def)
  have m: "length ?ids = min 6 (length data)" by (simp add: length_sampleSize)
  from all have "length ?ids = length (categories w')" by (rule list_all2_lengthD)
  with m have n: "length (categories w') = min 6 (length data)" by simp
  have each: "list_all2 ?P ?ids (categories w')"
  proof (rule list_all2_mono [OF all])
    fix catId cat assume "fetched rem catId cat"
    then obtain rc rnd where "category_api rem catId = Inr rc"
      "cat = \<lparr>title = title rc, clues = map board_clue (sampleSize rnd (clues rc) 5)\<rparr>"
      by blast
    then have "category_api rem catId = Inr rc \<and> title cat = title rc \<and>
          length (clues cat) = min 5 (length (clues rc))"
      by (simp add: length_sampleSize)
    then show "?P catId cat" by blast
  qed
  have full: "6 \<le> length data \<and>
      (\<forall>catId \<in> set ?ids. \<forall>rc. category_api rem catId = Inr rc \<longrightarrow> 5 \<le> length (clues rc))
        \<longrightarrow> length (categories w') = 6 \<and> (\<forall>cat \<in> set (categories w'). length (clues cat) = 5)"
  proof (intro impI conjI ballI)
    assume a: "6 \<le> length data \<and>
      (\<forall>catId \<in> set ?ids. \<forall>rc. category_api rem catId = Inr rc \<longrightarrow> 5 \<le> length (clues rc))"
    with n show "length (categories w') = 6" by simp
    fix cat assume "cat \<in> set (categories w')"
    with each have "\<exists>catId \<in> set ?ids. ?P catId cat" by (rule list_all2_member_set)
    then obtain catId rc where i: "catId \<in> set ?ids" and rc: "category_api rem catId = Inr rc"
      "length (clues cat) = min 5 (length (clues rc))" by blast
    with a have "5 \<le> length (clues rc)" by blast
    with rc(2) show "length (clues cat) = 5" by simp
  qed
  from data g m n each full show ?thesis by blast
qed

theorem board_size_witness:
  "start_text first_page \<noteq> ''Loading...'' \<and>
   fst (setupAndStart full_remote first_page) = Inr () \<and>
   categories_api full_remote =
     Inr (map (\<lambda>i. \<lparr>cat_id = i\<rparr>) [11, 12, 13, 14, 15, 16, 17, 18]) \<and>
   fst (getCategoryIds full_remote (showLoadingView first_page)) = Inr [14, 15, 16, 17, 18, 13] \<and>
   length (categories (snd (setupAndStart full_remote first_page))) = 6 \<and>
   map (\<lambda>cat. length (clues cat)) (categories (snd (setupAndStart full_remote first_page))) =
     [5, 5, 5, 5, 5, 5]"
proof -
  have idle: "start_text first_page \<noteq> ''Loading...''" by (simp add: first_page_def)
  have ok: "fst (setupAndStart full_remote first_page) = Inr ()"
    by (simp add: run_full Let_def)
  then have run: "setupAndStart full_remote first_page =
      (Inr (), snd (setupAndStart full_remote first_page))"
    by (metis prod.collapse)
  have d: "categories_api full_remote =
      Inr (map (\<lambda>i. \<lparr>cat_id = i\<rparr>) [11, 12, 13, 14, 15, 16, 17, 18])"
    by (simp add: full_remote_def)
  have g: "fst (getCategoryIds full_remote (showLoadingView first_page)) =
      Inr [14, 15, 16, 17, 18, 13]"
    by (simp add: getCategoryIds_def full_remote_def showLoadingView_def first_page_def sample_ids)
  have five: "\<forall>catId rc. category_api full_remote catId = Inr rc \<longrightarrow> 5 \<le> length (clues rc)"
    by (auto simp: full_remote_def math_clues_def)
  from board_size [OF idle run] obtain data catIds where
    b: "categories_api full_remote = Inr data"
    "6 \<le> length data \<and>
      (\<forall>catId \<in> set catIds. \<forall>rc. category_api full_remote catId = Inr rc \<longrightarrow> 5 \<le> length (clues rc))
        \<longrightarrow> length (categories (snd (setupAndStart full_remote first_page))) = 6 \<and>
            (\<forall>cat \<in> set (categories (snd (setupAndStart full_remote first_page))).
               length (clues cat) = 5)"
    by blast
  from b(1) d have "6 \<le> length data" by auto
  with b(2) five have six: "length (categories (snd (setupAndStart full_remote first_page))) = 6"
    and all5: "\<forall>cat \<in> set (categories (snd (setupAndStart full_remote first_page))).
               length (clues cat) = 5"
    by blast+
  from all5 have "list_all (\<lambda>cat. length (clues cat) = 5)
      (categories (snd (setupAndStart full_remote first_page)))"
    unfolding list_all_iff by blast
  have c: "map (\<lambda>cat. length (clues cat))
      (categories (snd (setupAndStart full_remote first_page))) = [5, 5, 5, 5, 5, 5]"
    by (simp add: run_full Let_def)
  from idle ok d g six c show ?thesis by blast
qed

text \<open>
  The claim as first stated (always 6 categories of 5 clues) fails for the service with two
  candidates of three clues: the restart resolves with a board of 2 categories of 3 clues.
\<close>

theorem board_size_counterexample:
  "start_text first_page \<noteq> ''Loading...'' \<and>
   fst (setupAndStart short_remote first_page) = Inr () \<and>
   length (categories (snd (setupAndStart short_remote first_page))) = 2 \<and>
   map (\<lambda>cat. length (clues cat)) (categories (snd (setupAndStart short_remote first_page))) =
     [3, 3]"
proof -
  have "start_text first_page \<noteq> ''Loading...''" by (simp add: first_page_def)
  then show ?thesis by (simp add: run_short Let_def)
qed


lemma distinct_board_clues:
  assumes "distinct (map (\<lambda>c. (question c, answer c)) xs)"
  shows "distinct (map board_clue xs)"
proof -
  have "map (\<lambda>c. (question c, answer c)) xs =
      map ((\<lambda>b. (question b, answer b)) \<circ> board_clue) xs"
    by (simp add: board_clue_def)
  with assms have "distinct xs"
    and "inj_on ((\<lambda>b. (question b, answer b)) \<circ> board_clue) (set xs)"
    by (simp_all add: distinct_map)
  then show ?thesis by (simp add: distinct_map inj_on_imageI2)
qed

text \<open>
  Claim C7. Sampling is without replacement: when the candidate ids are pairwise distinct
  and the clues of every remote category are pairwise distinct (as question and answer
  pairs, which is what a clue is), the ids selected for the board are pairwise distinct,
  the board's categories are those fetched for these ids, in order, and no category of the
  board holds the same clue twice.
\<close>

theorem sampling_without_replacement:
  assumes idle: "start_text w \<noteq> ''Loading...''"
    and run: "setupAndStart rem w = (Inr (), w')"
    and data: "categories_api rem = Inr data"
    and ids: "distinct (map cat_id data)"
    and cls: "\<forall>catId rc. category_api rem catId = Inr rc \<longrightarrow>
                distinct (map (\<lambda>c. (question c, answer c)) (clues rc))"
  shows "\<exists>catIds.
     fst (getCategoryIds rem (showLoadingView w)) = Inr catIds \<and>
     distinct catIds \<and> set catIds \<subseteq> set (map cat_id data) \<and>
     list_all2 (fetched rem) catIds (categories w') \<and>
     (\<forall>cat \<in> set (categories w'). distinct (clues cat))"
proof -
  let ?ids = "sampleSize (rng w) (map cat_id data) 6"
  note all = setupAndStart_resolved(1) [OF idle run data]
  have g: "fst (getCategoryIds rem (showLoadingView w)) = Inr ?ids"
    using data by (simp add: getCategoryIds_Inr showLoadingView_def)
  have d: "distinct ?ids" using ids by (rule distinct_sampleSize)
  have s: "set ?ids \<subseteq> set (map cat_id data)" by (rule set_sampleSize)
  have c: "\<forall>cat \<in> set (categories w'). distinct (clues cat)"
  proof
    fix cat assume "cat \<in> set (categories w')"
    with all have "\<exists>catId. fetched rem catId cat" by (rule list_all2_member)
    then obtain catId rc rnd where rc: "category_api rem catId = Inr rc"
      and cat: "cat = \<lparr>title = title rc, clues = map board_clue (sampleSize rnd (clues rc) 5)\<rparr>"
      by blast
    from cls rc have "distinct (map (\<lambda>c. (question c, answer c)) (clues rc))" by blast
    then have "distinct (map board_clue (clues rc))" by (rule distinct_board_clues)
    then have "distinct (sampleSize rnd (map board_clue (clues rc)) 5)"
      by (rule distinct_sampleSize)
    with cat show "distinct (clues cat)" by (simp add: map_sampleSize)
  qed
  from g d s all c show ?thesis by blast
qed

theorem sampling_without_replacement_witness:
  "start_text first_page \<noteq> ''Loading...'' \<and>
   fst (setupAndStart full_remote first_page) = Inr () \<and>
   distinct (map cat_id (map (\<lambda>i. \<lparr>cat_id = i\<rparr>) [11, 12, 13, 14, 15, 16, 17, 18])) \<and>
   distinct (map (\<lambda>c. (question c, answer c)) math_clues) \<and>
   fst (getCategoryIds full_remote (showLoadingView first_page)) = Inr [14, 15, 16, 17, 18, 13] \<and>
   distinct [14, 15, 16, 17, 18, 13 :: nat] \<and>
   list_all (\<lambda>cat. distinct (clues cat)) (categories (snd (setupAndStart full_remote first_page)))"
proof -
  have idle: "start_text first_page \<noteq> ''Loading...''" by (simp add: first_page_def)
  have ok: "fst (setupAndStart full_remote first_page) = Inr ()"
    by (simp add: run_full Let_def)
  then have run: "setupAndStart full_remote first_page =
      (Inr (), snd (setupAndStart full_remote first_page))"
    by (metis prod.collapse)
  have data: "categories_api full_remote =
      Inr (map (\<lambda>i. \<lparr>cat_id = i\<rparr>) [11, 12, 13, 14, 15, 16, 17, 18])"
    by (simp add: full_remote_def)
  have ids: "distinct (map cat_id (map (\<lambda>i. \<lparr>cat_id = i\<rparr>) [11, 12, 13, 14, 15, 16, 17, 18]))"
    by simp
  have m: "distinct (map (\<lambda>c. (question c, answer c)) math_clues)"
    by (simp add: math_clues_def)
  then have cls: "\<forall>catId rc. category_api full_remote catId = Inr rc \<longrightarrow>
                distinct (map (\<lambda>c. (question c, answer c)) (clues rc))"
    by (auto simp: full_remote_def)
  have g: "fst (getCategoryIds full_remote (showLoadingView first_page)) =
      Inr [14, 15, 16, 17, 18, 13]"
    by (simp add: getCategoryIds_def full_remote_def showLoadingView_def first_page_def sample_ids)
  from sampling_without_replacement [OF idle run data ids cls]
  have "list_all (\<lambda>cat. distinct (clues cat))
      (categories (snd (setupAndStart full_remote first_page)))"
    unfolding list_all_iff by blast
  with idle ok ids m g show ?thesis by simp
qed

text \<open>
  Claim C2, as amended. A fetch fails exactly by a rejected request, and the error
  propagates: \<^verbatim>\<open>getCategoryIds\<close> and \<^verbatim>\<open>setupAndStart\<close> reject with the error of the id
  request, \<^verbatim>\<open>getCategory\<close> with the error of the category request. A short answer does not
  fail: \<^verbatim>\<open>getCategoryIds\<close> resolves with min(6, number of candidates) of the candidate
  ids, all of them when there are fewer than 6, and \<^verbatim>\<open>getCategory\<close> resolves with
  min(5, number of clues) of the category's clues, all of them when there are fewer than 5.
\<close>

theorem fetch_fails_only_on_error:
  "(categories_api rem = Inl e \<longrightarrow>
      fst (getCategoryIds rem w) = Inl e \<and>
      (start_text w \<noteq> ''Loading...'' \<longrightarrow> fst (setupAndStart rem w) = Inl e)) \<and>
   (category_api rem catId = Inl e \<longrightarrow> fst (getCategory rem catId w) = Inl e) \<and>
   (categories_api rem = Inr data \<longrightarrow>
      (\<exists>catIds. fst (getCategoryIds rem w) = Inr catIds \<and>
         length catIds = min 6 (length data) \<and>
         set catIds \<subseteq> set (map cat_id data) \<and>
         (length data < 6 \<longrightarrow> mset catIds = mset (map cat_id data)))) \<and>
   (category_api rem catId = Inr rc \<longrightarrow>
      (\<exists>cat. fst (getCategory rem catId w) = Inr cat \<and>
         title cat = title rc \<and>
         length (clues cat) = min 5 (length (clues rc)) \<and>
         set (clues cat) \<subseteq> set (map board_clue (clues rc)) \<and>
         (length (clues rc) < 5 \<longrightarrow> mset (clues cat) = mset (map board_clue (clues rc)))))"
proof (intro conjI impI)
  assume "categories_api rem = Inl e"
  then show "fst (getCategoryIds rem w) = Inl e" by (simp add: getCategoryIds_Inl)
next
  assume "categories_api rem = Inl e" and "start_text w \<noteq> ''Loading...''"
  then show "fst (setupAndStart rem w) = Inl e" by (simp add: setupAndStart_ids_rejected)
next
  assume "category_api rem catId = Inl e"
  then show "fst (getCategory rem catId w) = Inl e" by (simp add: getCategory_Inl)
next
  assume d: "categories_api rem = Inr data"
  let ?ids = "sampleSize (rng w) (map cat_id data) 6"
  have "fst (getCategoryIds rem w) = Inr ?ids" using d by (simp add: getCategoryIds_Inr)
  moreover have "length ?ids = min 6 (length data)" by (simp add: length_sampleSize)
  moreover have "set ?ids \<subseteq> set (map cat_id data)" by (rule set_sampleSize)
  moreover have "length data < 6 \<longrightarrow> mset ?ids = mset (map cat_id data)"
    by (simp add: sampleSize_all)
  ultimately show "\<exists>catIds. fst (getCategoryIds rem w) = Inr catIds \<and>
         length catIds = min 6 (length data) \<and>
         set catIds \<subseteq> set (map cat_id data) \<and>
         (length data < 6 \<longrightarrow> mset catIds = mset (map cat_id data))"
    by blast
next
  assume c: "category_api rem catId = Inr rc"
  let ?cat = "\<lparr>title = title rc, clues = map board_clue (sampleSize (rng w) (clues rc) 5)\<rparr>"
  have "fst (getCategory rem catId w) = Inr ?cat" using c by (simp add: getCategory_Inr)
  moreover have "title ?cat = title rc" by simp
  moreover have "length (clues ?cat) = min 5 (length (clues rc))"
    by (simp add: length_sampleSize)
  moreover have "set (clues ?cat) \<subseteq> set (map board_clue (clues rc))"
    using set_sampleSize [of "rng w" "clues rc" 5] by auto
  moreover have "length (clues rc) < 5 \<longrightarrow> mset (clues ?cat) = mset (map board_clue (clues rc))"
    by (simp add: sampleSize_all)
  ultimately show "\<exists>cat. fst (getCategory rem catId w) = Inr cat \<and>
         title cat = title rc \<and>
         length (clues cat) = min 5 (length (clues rc)) \<and>
         set (clues cat) \<subseteq> set (map board_clue (clues rc)) \<and>
         (length (clues rc) < 5 \<longrightarrow> mset (clues cat) = mset (map board_clue (clues rc)))"
    by blast
qed

theorem fetch_fails_only_on_error_witness:
  "categories_api down_remote = Inl NetworkError \<and>
   category_api down_remote 11 = Inl NetworkError \<and>
   start_text first_page \<noteq> ''Loading...'' \<and>
   fst (getCategoryIds down_remote first_page) = Inl NetworkError \<and>
   fst (setupAndStart down_remote first_page) = Inl NetworkError \<and>
   fst (getCategory down_remote 11 first_page) = Inl NetworkError \<and>
   categories_api short_remote = Inr [\<lparr>cat_id = 11\<rparr>, \<lparr>cat_id = 12\<rparr>] \<and>
   category_api short_remote 11 = Inr \<lparr>title = ''Math'', clues = take 3 math_clues\<rparr> \<and>
   (\<exists>catIds. fst (getCategoryIds short_remote first_page) = Inr catIds \<and>
      length catIds = 2 \<and> mset catIds = {#11, 12#}) \<and>
   (\<exists>cat. fst (getCategory short_remote 11 first_page) = Inr cat \<and> length (clues cat) = 3)"
proof -
  have a: "categories_api down_remote = Inl NetworkError"
    "category_api down_remote 11 = Inl NetworkError"
    by (simp_all add: down_remote_def)
  have idle: "start_text first_page \<noteq> ''Loading...''" by (simp add: first_page_def)
  have b: "categories_api short_remote = Inr [\<lparr>cat_id = 11\<rparr>, \<lparr>cat_id = 12\<rparr>]"
    "category_api short_remote 11 = Inr \<lparr>title = ''Math'', clues = take 3 math_clues\<rparr>"
    by (simp_all add: short_remote_def)
  have l: "length (take 3 math_clues) = 3" by (simp add: math_clues_def)
  from fetch_fails_only_on_error [of down_remote NetworkError first_page 11] a idle
  have d: "fst (getCategoryIds down_remote first_page) = Inl NetworkError"
    "fst (setupAndStart down_remote first_page) = Inl NetworkError"
    "fst (getCategory down_remote 11 first_page) = Inl NetworkError"
    by simp_all
  from fetch_fails_only_on_error [of short_remote NetworkError first_page 11
      "[\<lparr>cat_id = 11\<rparr>, \<lparr>cat_id = 12\<rparr>]" "\<lparr>title = ''Math'', clues = take 3 math_clues\<rparr>"] b l
  have s: "\<exists>catIds. fst (getCategoryIds short_remote first_page) = Inr catIds \<and>
      length catIds = 2 \<and> mset catIds = {#11, 12#}"
    "\<exists>cat. fst (getCategory short_remote 11 first_page) = Inr cat \<and> length (clues cat) = 3"
    by auto
  from a idle b d s show ?thesis by blast
qed

text \<open>
  The claim as first stated has both fetches fail on short answers. With two candidates
  \<^verbatim>\<open>getCategoryIds\<close> resolves with both ids, with three clues \<^verbatim>\<open>getCategory\<close> resolves with
  the three, and the restart resolves.
\<close>

theorem fetch_fails_only_on_error_counterexample:
  "categories_api short_remote = Inr [\<lparr>cat_id = 11\<rparr>, \<lparr>cat_id = 12\<rparr>] \<and>
   length [\<lparr>cat_id = 11\<rparr>, \<lparr>cat_id = 12\<rparr>] < 6 \<and>
   fst (getCategoryIds short_remote first_page) = Inr [12, 11] \<and>
   category_api short_remote 12 = Inr \<lparr>title = ''Math'', clues = take 3 math_clues\<rparr> \<and>
   length (take 3 math_clues) < 5 \<and>
   fst (getCategory short_remote 12 first_page) =
     Inr \<lparr>title = ''Math'',
          clues = [\<lparr>question = ''2+2'', answer = ''4'', showing = Null\<rparr>,
                   \<lparr>question = ''3*3'', answer = ''9'', showing = Null\<rparr>,
                   \<lparr>question = ''1+1'', answer = ''2'', showing = Null\<rparr>]\<rparr> \<and>
   fst (setupAndStart short_remote first_page) = Inr ()"
proof -
  have "length (take 3 math_clues) < 5" by (simp add: math_clues_def)
  moreover have "fst (getCategoryIds short_remote first_page) = Inr [12, 11]"
    by (simp add: getCategoryIds_def short_remote_def first_page_def sample_ids_short)
  moreover have "fst (getCategory short_remote 12 first_page) =
     Inr \<lparr>title = ''Math'',
          clues = [\<lparr>question = ''2+2'', answer = ''4'', showing = Null\<rparr>,
                   \<lparr>question = ''3*3'', answer = ''9'', showing = Null\<rparr>,
                   \<lparr>question = ''1+1'', answer = ''2'', showing = Null\<rparr>]\<rparr>"
    by (simp add: getCategory_def short_remote_def first_page_def sample_clues_short board_clue_def)
  moreover have "fst (setupAndStart short_remote first_page) = Inr ()"
    by (simp add: run_short Let_def)
  ultimately show ?thesis by (simp add: short_remote_def)
qed


lemma sampled_ids_math_world:
  "sampleSize (rng math_world) [11, 12, 13, 14, 15, 16, 17, 18 :: nat] 6 = [14, 15, 16, 17, 18, 13]"
  by (simp add: math_world_eq sample_ids)

text \<open>
  Claim C9. \<^verbatim>\<open>setupAndStart\<close> is not atomic on error. When the id request rejects,
  \<^verbatim>\<open>categories\<close> is as before the restart, while the table is already empty and the page
  stays in the loading view. When the request for the \<open>k\<close>-th selected category is the
  first to reject, \<^verbatim>\<open>categories\<close> has been reset and holds the \<open>k\<close> categories fetched
  before it, fewer than 6, again with an empty table and the loading view on.
\<close>

theorem setupAndStart_not_atomic:
  assumes idle: "start_text w \<noteq> ''Loading...''"
  shows "(categories_api rem = Inl e \<longrightarrow>
      (\<exists>w'. setupAndStart rem w = (Inl e, w') \<and> categories w' = categories w \<and>
         thead w' = [] \<and> tbody w' = [] \<and> start_text w' = ''Loading...'' \<and>
         start_disabled w' \<and> spinner_shown w')) \<and>
     (categories_api rem = Inr data \<and>
      k < length (sampleSize (rng w) (map cat_id data) 6) \<and>
      category_api rem (sampleSize (rng w) (map cat_id data) 6 ! k) = Inl e \<and>
      (\<forall>j<k. \<exists>rc. category_api rem (sampleSize (rng w) (map cat_id data) 6 ! j) = Inr rc) \<longrightarrow>
      (\<exists>w'. setupAndStart rem w = (Inl e, w') \<and>
         length (categories w') = k \<and> k < 6 \<and>
         list_all2 (fetched rem) (take k (sampleSize (rng w) (map cat_id data) 6)) (categories w') \<and>
         thead w' = [] \<and> tbody w' = [] \<and> start_text w' = ''Loading...'' \<and>
         start_disabled w' \<and> spinner_shown w'))"
proof (intro conjI impI)
  assume "categories_api rem = Inl e"
  with idle have "setupAndStart rem w =
     (Inl e, (showLoadingView w)\<lparr>calls := calls (showLoadingView w) @ [GetCategories]\<rparr>)"
    by (rule setupAndStart_ids_rejected)
  then show "\<exists>w'. setupAndStart rem w = (Inl e, w') \<and> categories w' = categories w \<and>
         thead w' = [] \<and> tbody w' = [] \<and> start_text w' = ''Loading...'' \<and>
         start_disabled w' \<and> spinner_shown w'"
    by (simp add: showLoadingView_def)
next
  let ?ids = "sampleSize (rng w) (map cat_id data) 6"
  assume a: "categories_api rem = Inr data \<and> k < length ?ids \<and>
      category_api rem (?ids ! k) = Inl e \<and>
      (\<forall>j<k. \<exists>rc. category_api rem (?ids ! j) = Inr rc)"
  then have d: "categories_api rem = Inr data" and k: "k < length ?ids"
    and e: "category_api rem (?ids ! k) = Inl e"
    and p: "\<forall>j<k. \<exists>rc. category_api rem (?ids ! j) = Inr rc"
    by blast+
  from setupAndStart_category_rejected [OF idle d k e p] obtain w' where
    r: "setupAndStart rem w = (Inl e, w')"
    and c: "list_all2 (fetched rem) (take k ?ids) (categories w')"
    and f: "thead w' = []" "tbody w' = []" "start_text w' = ''Loading...''"
      "start_disabled w'" "spinner_shown w'"
    by blast
  from c have "length (take k ?ids) = length (categories w')"
    by (rule list_all2_lengthD)
  with k have n: "length (categories w') = k" by simp
  from k have "k < 6" by (simp add: length_sampleSize)
  with r c f n show "\<exists>w'. setupAndStart rem w = (Inl e, w') \<and>
         length (categories w') = k \<and> k < 6 \<and>
         list_all2 (fetched rem) (take k ?ids) (categories w') \<and>
         thead w' = [] \<and> tbody w' = [] \<and> start_text w' = ''Loading...'' \<and>
         start_disabled w' \<and> spinner_shown w'"
    by blast
qed

theorem setupAndStart_not_atomic_witness:
  "start_text math_world \<noteq> ''Loading...'' \<and>
   categories_api down_remote = Inl NetworkError \<and>
   fst (setupAndStart down_remote math_world) = Inl NetworkError \<and>
   categories (snd (setupAndStart down_remote math_world)) = categories math_world \<and>
   length (categories math_world) = 1 \<and>
   tbody (snd (setupAndStart down_remote math_world)) = [] \<and>
   start_text (snd (setupAndStart down_remote math_world)) = ''Loading...'' \<and>
   categories_api flaky_remote = Inr (map (\<lambda>i. \<lparr>cat_id = i\<rparr>) [11, 12, 13, 14, 15, 16, 17, 18]) \<and>
   category_api flaky_remote ([14, 15, 16, 17, 18, 13] ! 5) = Inl NetworkError \<and>
   fst (setupAndStart flaky_remote math_world) = Inl NetworkError \<and>
   length (categories (snd (setupAndStart flaky_remote math_world))) = 5 \<and>
   tbody (snd (setupAndStart flaky_remote math_world)) = [] \<and>
   start_text (snd (setupAndStart flaky_remote math_world)) = ''Loading...''"
proof -
  have idle: "start_text math_world \<noteq> ''Loading...''" by (simp add: math_world_eq)
  have one: "length (categories math_world) = 1" by (simp add: math_world_eq)
  have down: "categories_api down_remote = Inl NetworkError" by (simp add: down_remote_def)
  have data: "categories_api flaky_remote =
      Inr (map (\<lambda>i. \<lparr>cat_id = i\<rparr>) [11, 12, 13, 14, 15, 16, 17, 18])"
    by (simp add: flaky_remote_def)
  have bad: "category_api flaky_remote ([14, 15, 16, 17, 18, 13] ! 5) = Inl NetworkError"
    by (simp add: flaky_remote_def)
  have good: "\<forall>j<5. \<exists>rc. category_api flaky_remote ([14, 15, 16, 17, 18, 13] ! j) = Inr rc"
  proof (intro allI impI)
    fix j :: nat assume "j < 5"
    then have "j = 0 \<or> j = 1 \<or> j = 2 \<or> j = 3 \<or> j = 4" by arith
    then show "\<exists>rc. category_api flaky_remote ([14, 15, 16, 17, 18, 13] ! j) = Inr rc"
      by (auto simp: flaky_remote_def)
  qed
  note t1 = setupAndStart_not_atomic [OF idle, of down_remote NetworkError]
  from t1 down have r1: "fst (setupAndStart down_remote math_world) = Inl NetworkError"
    "categories (snd (setupAndStart down_remote math_world)) = categories math_world"
    "tbody (snd (setupAndStart down_remote math_world)) = []"
    "start_text (snd (setupAndStart down_remote math_world)) = ''Loading...''"
    by auto
  note t2 = setupAndStart_not_atomic [OF idle, of flaky_remote NetworkError
      "map (\<lambda>i. \<lparr>cat_id = i\<rparr>) [11, 12, 13, 14, 15, 16, 17, 18]" 5]
  from t2 data bad good have r2: "fst (setupAndStart flaky_remote math_world) = Inl NetworkError"
    "length (categories (snd (setupAndStart flaky_remote math_world))) = 5"
    "tbody (snd (setupAndStart flaky_remote math_world)) = []"
    "start_text (snd (setupAndStart flaky_remote math_world)) = ''Loading...''"
    by (auto simp: sampled_ids_math_world)
  from idle one down data bad r1 r2 show ?thesis by blast
qed

end
